theory Spec2Isabelle
  imports Complex_Main "HOL-Library.Multiset"
begin

section \<open>Floating-point numbers\<close>

text \<open>
  The notebook \<^verbatim>\<open>examples/uncertainty_weighted_loss.ipynb\<close> computes with numpy arrays of
  float64 and torch tensors of float32. A floating-point value is a finite real, one of
  the two infinities, or nan. The two zeros and the different nans are not told apart: no
  operation of the code modelled below divides by an entry or reads a sign bit.
\<close>

datatype fl = Fin real | PInf | NInf | NaN

text \<open>
  Rounding to nearest, ties to even, for a binary format with \<open>p\<close> significand bits and
  exponents from \<open>emin\<close> to \<open>emax\<close>: IEEE 754 binary32 is \<open>p = 24\<close>, \<open>emin = -126\<close>,
  \<open>emax = 127\<close>, binary64 is \<open>p = 53\<close>, \<open>emin = -1022\<close>, \<open>emax = 1023\<close>. The spacing \<open>u\<close> of
  the floats around \<open>x\<close> is \<open>2\<close> to the power \<open>e - p + 1\<close>, where \<open>e\<close> is the exponent of \<open>x\<close>, but
  not less than \<open>emin\<close> (the subnormal range); \<open>x\<close> is rounded to a multiple of \<open>u\<close>, and a
  result beyond the largest float becomes an infinity.
\<close>

definition rne :: "real \<Rightarrow> int" where
  "rne x =
     (let f = \<lfloor>x\<rfloor> in
      if x - of_int f < 1 / 2 then f
      else if 1 / 2 < x - of_int f then f + 1
      else if even f then f else f + 1)"

definition fl_round :: "nat \<Rightarrow> int \<Rightarrow> int \<Rightarrow> real \<Rightarrow> fl" where
  "fl_round p emin emax x =
     (if x = 0 then Fin 0
      else
        let e = max \<lfloor>log 2 \<bar>x\<bar>\<rfloor> emin;
            u = 2 powr real_of_int (e - int p + 1);
            y = real_of_int (rne (x / u)) * u
        in if 2 powr real_of_int (emax + 1) \<le> \<bar>y\<bar> then (if 0 < x then PInf else NInf)
           else Fin y)"

definition f32 :: "real \<Rightarrow> fl" where
  "f32 = fl_round 24 (- 126) 127"

definition f64 :: "real \<Rightarrow> fl" where
  "f64 = fl_round 53 (- 1022) 1023"

text \<open>
  The arithmetic of a format is the exact operation followed by rounding, with the usual
  rules for infinities and nan (\<open>inf - inf\<close> and \<open>inf * 0\<close> are nan). \<^verbatim>\<open>x ** 2.\<close> is \<open>x * x\<close>, as
  torch computes a power with exponent 2. The exponential is taken as correctly rounded.
  In a division the divisor zero counts as \<open>+0\<close>; it is used only to divide a sum by a
  count.
\<close>

fun fl_neg :: "fl \<Rightarrow> fl" where
  "fl_neg (Fin x) = Fin (- x)"
| "fl_neg PInf = NInf"
| "fl_neg NInf = PInf"
| "fl_neg NaN = NaN"

fun fl_add :: "(real \<Rightarrow> fl) \<Rightarrow> fl \<Rightarrow> fl \<Rightarrow> fl" where
  "fl_add rnd NaN b = NaN"
| "fl_add rnd a NaN = NaN"
| "fl_add rnd PInf NInf = NaN"
| "fl_add rnd NInf PInf = NaN"
| "fl_add rnd PInf b = PInf"
| "fl_add rnd a PInf = PInf"
| "fl_add rnd NInf b = NInf"
| "fl_add rnd a NInf = NInf"
| "fl_add rnd (Fin x) (Fin y) = rnd (x + y)"

definition fl_sub :: "(real \<Rightarrow> fl) \<Rightarrow> fl \<Rightarrow> fl \<Rightarrow> fl" where
  "fl_sub rnd a b = fl_add rnd a (fl_neg b)"

fun fl_sgn :: "fl \<Rightarrow> real" where
  "fl_sgn (Fin x) = sgn x"
| "fl_sgn PInf = 1"
| "fl_sgn NInf = - 1"
| "fl_sgn NaN = 0"

fun fl_mul :: "(real \<Rightarrow> fl) \<Rightarrow> fl \<Rightarrow> fl \<Rightarrow> fl" where
  "fl_mul rnd NaN b = NaN"
| "fl_mul rnd a NaN = NaN"
| "fl_mul rnd (Fin x) (Fin y) = rnd (x * y)"
| "fl_mul rnd a b =
     (if fl_sgn a * fl_sgn b = 0 then NaN else if 0 < fl_sgn a * fl_sgn b then PInf else NInf)"

definition fl_sq :: "(real \<Rightarrow> fl) \<Rightarrow> fl \<Rightarrow> fl" where
  "fl_sq rnd a = fl_mul rnd a a"

fun fl_exp :: "(real \<Rightarrow> fl) \<Rightarrow> fl \<Rightarrow> fl" where
  "fl_exp rnd (Fin x) = rnd (exp x)"
| "fl_exp rnd PInf = PInf"
| "fl_exp rnd NInf = Fin 0"
| "fl_exp rnd NaN = NaN"

fun fl_div :: "(real \<Rightarrow> fl) \<Rightarrow> fl \<Rightarrow> fl \<Rightarrow> fl" where
  "fl_div rnd NaN b = NaN"
| "fl_div rnd a NaN = NaN"
| "fl_div rnd (Fin x) (Fin y) =
     (if y = 0 then (if x = 0 then NaN else if 0 < x then PInf else NInf) else rnd (x / y))"
| "fl_div rnd (Fin x) b = Fin 0"
| "fl_div rnd a (Fin y) = (if 0 \<le> y then a else fl_neg a)"
| "fl_div rnd a b = NaN"

text \<open>
  The order in which \<^verbatim>\<open>torch.sum\<close> and \<^verbatim>\<open>torch.mean\<close> add the entries of a tensor is not fixed
  by the notebook, so the two reductions are parameters \<open>tsum\<close> and \<open>tmean\<close> of the functions
  that use them: each takes the entries in row-major order and returns the reduced value.
  The theorems hold for every choice of them. To run the code on concrete inputs, the
  following pair adds from left to right, starting at 0.
\<close>

definition seq_sum :: "(real \<Rightarrow> fl) \<Rightarrow> fl list \<Rightarrow> fl" where
  "seq_sum rnd xs = foldl (fl_add rnd) (Fin 0) xs"

definition seq_mean :: "(real \<Rightarrow> fl) \<Rightarrow> fl list \<Rightarrow> fl" where
  "seq_mean rnd xs = fl_div rnd (seq_sum rnd xs) (Fin (real (length xs)))"

section \<open>Errors and shapes\<close>

datatype error = TypeError | IndexError | RuntimeError | ValueError

text \<open>
  Broadcasting, as numpy and torch both define it: two sizes of one dimension are
  compatible when they are equal or one of them is 1; the operand of size 1 is then read
  at index 0 for every index of the result.
\<close>

definition broadcast_dim :: "nat \<Rightarrow> nat \<Rightarrow> nat option" where
  "broadcast_dim a b =
     (if a = b then Some a else if a = 1 then Some b else if b = 1 then Some a else None)"

section \<open>numpy arrays\<close>

text \<open>
  Every numpy array of the notebook has rank 2: it comes from \<^verbatim>\<open>np.random.randn(N, k)\<close> or
  from arithmetic and row selection on such arrays. An array is its column count and the
  list of its rows; the column count is kept apart because an array with no rows still has
  a shape \<open>(0, k)\<close>.
\<close>

record matrix =
  ncols :: nat
  rows :: "fl list list"

definition nrows :: "matrix \<Rightarrow> nat" where
  "nrows m = length (rows m)"

definition wf_matrix :: "matrix \<Rightarrow> bool" where
  "wf_matrix m \<longleftrightarrow> list_all (\<lambda>r. length r = ncols m) (rows m)"

definition entry :: "matrix \<Rightarrow> nat \<Rightarrow> nat \<Rightarrow> fl" where
  "entry m r c = rows m ! r ! c"

text \<open>
  An operation between an array and a Python scalar acts on every entry.
\<close>

definition map_matrix :: "(fl \<Rightarrow> fl) \<Rightarrow> matrix \<Rightarrow> matrix" where
  "map_matrix f m = m\<lparr>rows := map (map f) (rows m)\<rparr>"

definition bentry :: "matrix \<Rightarrow> nat \<Rightarrow> nat \<Rightarrow> fl" where
  "bentry m r c = entry m (if nrows m = 1 then 0 else r) (if ncols m = 1 then 0 else c)"

definition broadcast_op :: "(fl \<Rightarrow> fl \<Rightarrow> fl) \<Rightarrow> matrix \<Rightarrow> matrix \<Rightarrow> matrix option" where
  "broadcast_op f a b =
     (case broadcast_dim (nrows a) (nrows b) of
        None \<Rightarrow> None
      | Some R \<Rightarrow>
          (case broadcast_dim (ncols a) (ncols b) of
             None \<Rightarrow> None
           | Some C \<Rightarrow>
               Some \<lparr>ncols = C,
                     rows = map (\<lambda>r. map (\<lambda>c. f (bentry a r c) (bentry b r c)) [0..<C]) [0..<R]\<rparr>))"

text \<open>
  \<^verbatim>\<open>a + b\<close> on float64 arrays; ValueError when the shapes cannot be broadcast.
\<close>

definition np_add :: "matrix \<Rightarrow> matrix \<Rightarrow> error + matrix" where
  "np_add a b = (case broadcast_op (fl_add f64) a b of None \<Rightarrow> Inl ValueError | Some m \<Rightarrow> Inr m)"

section \<open>The data generator\<close>

text \<open>
  The sizes are module-level constants of the notebook:
  \<^verbatim>\<open>input_size = 1\<close>, \<^verbatim>\<open>output1_size = 1\<close>, \<^verbatim>\<open>output2_size = 1\<close>.
\<close>

definition input_size :: nat where
  "input_size = 1"

definition output1_size :: nat where
  "output1_size = 1"

definition output2_size :: nat where
  "output2_size = 1"

text \<open>
  The state of the interpreter, as far as randomness goes, has two parts: the state of
  numpy's global generator, of an arbitrary type \<open>'g\<close>, and everything else a statement
  could draw on (torch's generator, Python's \<^verbatim>\<open>random\<close> module, the clock), of an arbitrary
  type \<open>'h\<close>. The functions of the notebook receive the whole state and return it.

  The library calls are parameters of the functions that use them:
  \<^item> \<open>randn g n k\<close> stands for \<^verbatim>\<open>np.random.randn(n, k)\<close> with numpy's generator in state \<open>g\<close>: the
    array drawn and the generator's state after the draw;
  \<^item> \<open>np_shuffle g s\<close> stands for \<^verbatim>\<open>np.random.shuffle(s)\<close>: the contents of \<open>s\<close> afterwards and
    the generator's state after the call;
  \<^item> \<open>initial n\<close> is the state in which \<^verbatim>\<open>np.random.seed(n)\<close> leaves numpy's generator.
  What the library promises about them (the shape of the array; that a shuffle permutes) is
  a hypothesis of the theorems that need it.

  \<^verbatim>\<open>np.random.seed(n)\<close> accepts the seeds below \<open>2\<^sup>3\<^sup>2\<close> and raises ValueError for larger ones.
\<close>

record ('g, 'h) world =
  np_state :: 'g
  other_state :: 'h

definition np_random_seed :: "(nat \<Rightarrow> 'g) \<Rightarrow> nat \<Rightarrow> ('g, 'h) world \<Rightarrow> error + ('g, 'h) world" where
  "np_random_seed initial seed w =
     (if seed < 2 ^ 32 then Inr (w\<lparr>np_state := initial seed\<rparr>) else Inl ValueError)"

definition np_random_randn ::
  "('g \<Rightarrow> nat \<Rightarrow> nat \<Rightarrow> matrix \<times> 'g) \<Rightarrow> nat \<Rightarrow> nat \<Rightarrow> ('g, 'h) world \<Rightarrow> matrix \<times> ('g, 'h) world" where
  "np_random_randn randn n k w =
     (let (a, g) = randn (np_state w) n k in (a, w\<lparr>np_state := g\<rparr>))"

text \<open>
  \<^verbatim>\<open>
  def gen_data(N):
      X = np.random.randn(N, input_size)
      w1 = 2.
      b1 = 8.
      sigma1 = 1e1  # ground truth
      Y1 = X.dot(w1) + b1 + sigma1 * np.random.randn(N, output1_size)
      w2 = 3.
      b2 = 3.
      sigma2 = 1e0  # ground truth
      Y2 = X.dot(w2) + b2 + sigma2 * np.random.randn(N, output2_size)
      return X, Y1, Y2
  \<close>
  \<^verbatim>\<open>X.dot(w)\<close> with a scalar \<open>w\<close> multiplies every entry by \<open>w\<close>. All arithmetic is float64. The
  coefficients are named \<open>c1\<close> and \<open>c2\<close> here.
\<close>

definition gen_data ::
  "('g \<Rightarrow> nat \<Rightarrow> nat \<Rightarrow> matrix \<times> 'g) \<Rightarrow> nat \<Rightarrow> ('g, 'h) world
     \<Rightarrow> (error + matrix \<times> matrix \<times> matrix) \<times> ('g, 'h) world" where
  "gen_data randn N w0 =
     (let (X, w1) = np_random_randn randn N input_size w0;
          c1 = Fin 2; b1 = Fin 8; sigma1 = Fin 10;
          (noise1, w2) = np_random_randn randn N output1_size w1
      in case np_add (map_matrix (\<lambda>x. fl_add f64 x b1) (map_matrix (\<lambda>x. fl_mul f64 x c1) X))
                     (map_matrix (\<lambda>x. fl_mul f64 sigma1 x) noise1) of
           Inl e \<Rightarrow> (Inl e, w2)
         | Inr Y1 \<Rightarrow>
             let c2 = Fin 3; b2 = Fin 3; sigma2 = Fin 1;
                 (noise2, w3) = np_random_randn randn N output2_size w2
             in case np_add (map_matrix (\<lambda>x. fl_add f64 x b2) (map_matrix (\<lambda>x. fl_mul f64 x c2) X))
                            (map_matrix (\<lambda>x. fl_mul f64 sigma2 x) noise2) of
                  Inl e \<Rightarrow> (Inl e, w3)
                | Inr Y2 \<Rightarrow> (Inr (X, Y1, Y2), w3))"

text \<open>
  The two statements of the notebook that reproducibility is about, one after the other:
  \<^verbatim>\<open>np.random.seed(seed)\<close>, then \<^verbatim>\<open>gen_data(N)\<close>; the value is the triple of arrays.
\<close>

definition seeded_gen_data ::
  "(nat \<Rightarrow> 'g) \<Rightarrow> ('g \<Rightarrow> nat \<Rightarrow> nat \<Rightarrow> matrix \<times> 'g) \<Rightarrow> nat \<Rightarrow> nat \<Rightarrow> ('g, 'h) world
     \<Rightarrow> error + (error + matrix \<times> matrix \<times> matrix)" where
  "seeded_gen_data initial randn seed N w =
     (case np_random_seed initial seed w of
        Inl e \<Rightarrow> Inl e
      | Inr w1 \<Rightarrow> Inr (fst (gen_data randn N w1)))"

text \<open>
  \<^verbatim>\<open>X[s]\<close> for an index array \<open>s\<close>: the rows of \<open>X\<close> at the positions \<open>s\<close> lists, in that order;
  an index past the last row raises IndexError.
\<close>

definition take_rows :: "matrix \<Rightarrow> nat list \<Rightarrow> error + matrix" where
  "take_rows X s =
     (if list_all (\<lambda>k. k < nrows X) s
      then Inr \<lparr>ncols = ncols X, rows = map (\<lambda>k. rows X ! k) s\<rparr>
      else Inl IndexError)"

text \<open>
  \<^verbatim>\<open>
  def shuffle_data(X, Y1, Y2):
      s = np.arange(X.shape[0])
      np.random.shuffle(s)
      return X[s], Y1[s], Y2[s]
  \<close>
\<close>

definition shuffle_data ::
  "('g \<Rightarrow> nat list \<Rightarrow> nat list \<times> 'g) \<Rightarrow> matrix \<Rightarrow> matrix \<Rightarrow> matrix \<Rightarrow> ('g, 'h) world
     \<Rightarrow> (error + matrix \<times> matrix \<times> matrix) \<times> ('g, 'h) world" where
  "shuffle_data np_shuffle X Y1 Y2 w0 =
     (let (s, g1) = np_shuffle (np_state w0) [0..<nrows X];
          w1 = w0\<lparr>np_state := g1\<rparr>
      in case take_rows X s of
        Inl e \<Rightarrow> (Inl e, w1)
      | Inr X' \<Rightarrow>
          (case take_rows Y1 s of
             Inl e \<Rightarrow> (Inl e, w1)
           | Inr Y1' \<Rightarrow>
               (case take_rows Y2 s of
                  Inl e \<Rightarrow> (Inl e, w1)
                | Inr Y2' \<Rightarrow> (Inr (X', Y1', Y2'), w1))))"

text \<open>
  Two stand-ins for the library generator, used to run the functions above on concrete
  inputs: the state is a counter, a draw fills the array with the counter's value, and a
  shuffle reverses the list.
\<close>

definition stub_randn :: "nat \<Rightarrow> nat \<Rightarrow> nat \<Rightarrow> matrix \<times> nat" where
  "stub_randn g n k = (\<lparr>ncols = k, rows = replicate n (replicate k (Fin (real g)))\<rparr>, Suc g)"

definition stub_shuffle :: "nat \<Rightarrow> nat list \<Rightarrow> nat list \<times> nat" where
  "stub_shuffle g xs = (rev xs, Suc g)"

section \<open>The loss wrapper module\<close>

text \<open>
  \<^verbatim>\<open>
  class MultiTaskLossWrapper(nn.Module):
      def __init__(self, num_tasks):
          super(MultiTaskLossWrapper, self).__init__()
          self.num_tasks = num_tasks
          self.log_vars = nn.Parameter(torch.zeros((num_tasks)))

      def forward(self, *X):
          return self.log_vars, X
  \<close>
  The module is the record of its two attributes. \<^verbatim>\<open>forward\<close> receives the module and
  returns it next to its result, so that what it does to the module is part of the model.
\<close>

record wrapper =
  num_tasks :: nat
  log_vars :: "fl list"

definition wrapper_init :: "nat \<Rightarrow> wrapper" where
  "wrapper_init n = \<lparr>num_tasks = n, log_vars = replicate n (Fin 0)\<rparr>"

definition forward :: "wrapper \<Rightarrow> 'a list \<Rightarrow> (fl list \<times> 'a list) \<times> wrapper" where
  "forward self X = ((log_vars self, X), self)"

section \<open>torch tensors\<close>

text \<open>
  A tensor of any rank is its shape and its entries, read by index list. Only the entries
  at the indices within the shape are ever read. \<open>indices s\<close> lists those indices in
  row-major order; \<open>full s v\<close> is \<^verbatim>\<open>torch.full(s, v)\<close>.
\<close>

record tensor =
  shape :: "nat list"
  elem :: "nat list \<Rightarrow> fl"

fun indices :: "nat list \<Rightarrow> nat list list" where
  "indices [] = [[]]"
| "indices (d # ds) = concat (map (\<lambda>k. map ((#) k) (indices ds)) [0..<d])"

definition full :: "nat list \<Rightarrow> fl \<Rightarrow> tensor" where
  "full s v = \<lparr>shape = s, elem = \<lambda>idx. v\<rparr>"

definition scalar_tensor :: "fl \<Rightarrow> tensor" where
  "scalar_tensor v = \<lparr>shape = [], elem = \<lambda>idx. v\<rparr>"

definition map_tensor :: "(fl \<Rightarrow> fl) \<Rightarrow> tensor \<Rightarrow> tensor" where
  "map_tensor f t = \<lparr>shape = shape t, elem = \<lambda>idx. f (elem t idx)\<rparr>"

text \<open>
  Broadcasting of two shapes aligns them at the last dimension; a missing leading
  dimension counts as 1. \<open>bidx s idx\<close> is the index at which an operand of shape \<open>s\<close> is read
  for the index \<open>idx\<close> of the result.
\<close>

fun bshape_rev :: "nat list \<Rightarrow> nat list \<Rightarrow> nat list option" where
  "bshape_rev [] ys = Some ys"
| "bshape_rev xs [] = Some xs"
| "bshape_rev (x # xs) (y # ys) =
     (case broadcast_dim x y of
        None \<Rightarrow> None
      | Some d \<Rightarrow> (case bshape_rev xs ys of None \<Rightarrow> None | Some ds \<Rightarrow> Some (d # ds)))"

definition bshape :: "nat list \<Rightarrow> nat list \<Rightarrow> nat list option" where
  "bshape s1 s2 = map_option rev (bshape_rev (rev s1) (rev s2))"

definition bidx :: "nat list \<Rightarrow> nat list \<Rightarrow> nat list" where
  "bidx s idx = map2 (\<lambda>d k. if d = 1 then 0 else k) s (drop (length idx - length s) idx)"

definition tensor_op :: "(fl \<Rightarrow> fl \<Rightarrow> fl) \<Rightarrow> tensor \<Rightarrow> tensor \<Rightarrow> tensor option" where
  "tensor_op f a b =
     (case bshape (shape a) (shape b) of
        None \<Rightarrow> None
      | Some s \<Rightarrow>
          Some \<lparr>shape = s, elem = \<lambda>idx. f (elem a (bidx (shape a) idx)) (elem b (bidx (shape b) idx))\<rparr>)"

text \<open>
  \<^verbatim>\<open>a - b\<close> on float32 tensors; RuntimeError when the shapes cannot be broadcast.
\<close>

definition torch_sub :: "tensor \<Rightarrow> tensor \<Rightarrow> error + tensor" where
  "torch_sub a b =
     (case tensor_op (fl_sub f32) a b of None \<Rightarrow> Inl RuntimeError | Some t \<Rightarrow> Inr t)"

text \<open>
  \<^verbatim>\<open>torch.sum(t, -1)\<close>: the reduction over the last dimension; a 0-d tensor counts as one
  entry.
\<close>

definition torch_sum_last :: "(fl list \<Rightarrow> fl) \<Rightarrow> tensor \<Rightarrow> tensor" where
  "torch_sum_last tsum t =
     (if shape t = [] then scalar_tensor (tsum [elem t []])
      else \<lparr>shape = butlast (shape t),
            elem = \<lambda>idx. tsum (map (\<lambda>k. elem t (idx @ [k])) [0..<last (shape t)])\<rparr>)"

text \<open>
  The Python variable \<^verbatim>\<open>loss\<close> holds the integer 0 or a tensor.

  \<^verbatim>\<open>loss += t\<close>: on the integer, Python falls back to \<^verbatim>\<open>loss = loss + t\<close>, which makes a new
  tensor. On a tensor the addition is in place: \<open>t\<close> may be broadcast to the shape of
  \<^verbatim>\<open>loss\<close>, but \<^verbatim>\<open>loss\<close> itself cannot change shape.
\<close>

datatype pyval = PyInt int | Tensor tensor

fun iadd :: "pyval \<Rightarrow> tensor \<Rightarrow> error + pyval" where
  "iadd (PyInt n) t = Inr (Tensor (map_tensor (fl_add f32 (Fin (of_int n))) t))"
| "iadd (Tensor l) t =
     (if bshape (shape l) (shape t) = Some (shape l)
      then Inr (Tensor \<lparr>shape = shape l,
                        elem = \<lambda>idx. fl_add f32 (elem l idx) (elem t (bidx (shape t) idx))\<rparr>)
      else Inl RuntimeError)"

text \<open>
  \<^verbatim>\<open>torch.mean(loss)\<close>: the argument must be a tensor; the result is a 0-d tensor.
\<close>

fun torch_mean :: "(fl list \<Rightarrow> fl) \<Rightarrow> pyval \<Rightarrow> error + pyval" where
  "torch_mean tmean (PyInt n) = Inl TypeError"
| "torch_mean tmean (Tensor t) = Inr (Tensor (scalar_tensor (tmean (map (elem t) (indices (shape t))))))"

section \<open>The loss of one batch\<close>

text \<open>
  \<^verbatim>\<open>
  loss = 0
  for i in range(len(y)):
      precision = torch.exp(-log_vars[i])
      diff = (y_hat[i] - y[i])**2.
      loss += torch.sum(precision * diff + log_vars[i], -1)
  loss = torch.mean(loss)
  \<close>
  The block runs inside \<^verbatim>\<open>for i in range(nb_epoch)\<close>, so on entry the variable \<^verbatim>\<open>i\<close> holds the
  epoch index. The variables \<^verbatim>\<open>i\<close> and \<^verbatim>\<open>loss\<close> are state; \<^verbatim>\<open>precision\<close> and \<^verbatim>\<open>diff\<close> are
  assigned and read within one iteration and are bound by \<open>let\<close>. \<^verbatim>\<open>log_vars\<close> is a 1-d tensor,
  \<^verbatim>\<open>y_hat\<close> a tuple and \<^verbatim>\<open>y\<close> a list of tensors.
\<close>

record vars =
  v_i :: nat
  v_loss :: pyval

text \<open>
  \<^verbatim>\<open>torch.exp(-log_vars[i])\<close>; indexing past the end of the tensor raises IndexError.
\<close>

definition precision_at :: "fl list \<Rightarrow> nat \<Rightarrow> error + fl" where
  "precision_at lvars i =
     (if i < length lvars then Inr (fl_exp f32 (fl_neg (lvars ! i))) else Inl IndexError)"

definition task_body ::
  "(fl list \<Rightarrow> fl) \<Rightarrow> fl list \<Rightarrow> tensor list \<Rightarrow> tensor list \<Rightarrow> vars \<Rightarrow> error + vars" where
  "task_body tsum lvars y_hat y st =
     (let i = v_i st in
      case precision_at lvars i of
        Inl e \<Rightarrow> Inl e
      | Inr precision \<Rightarrow>
          if \<not> i < length y_hat \<or> \<not> i < length y then Inl IndexError
          else
            (case torch_sub (y_hat ! i) (y ! i) of
               Inl e \<Rightarrow> Inl e
             | Inr d \<Rightarrow>
                 let diff = map_tensor (fl_sq f32) d;
                     t = torch_sum_last tsum
                           (map_tensor (\<lambda>x. fl_add f32 x (lvars ! i))
                              (map_tensor (\<lambda>x. fl_mul f32 precision x) diff))
                 in (case iadd (v_loss st) t of
                       Inl e \<Rightarrow> Inl e
                     | Inr l \<Rightarrow> Inr (st\<lparr>v_loss := l\<rparr>))))"

text \<open>
  \<^verbatim>\<open>for i in ks: body\<close>: each iteration assigns \<^verbatim>\<open>i\<close>, then runs the body.
\<close>

fun for_i :: "nat list \<Rightarrow> (vars \<Rightarrow> error + vars) \<Rightarrow> vars \<Rightarrow> error + vars" where
  "for_i [] body st = Inr st"
| "for_i (k # ks) body st =
     (case body (st\<lparr>v_i := k\<rparr>) of
        Inl e \<Rightarrow> Inl e
      | Inr st' \<Rightarrow> for_i ks body st')"

definition batch_loss_stmts ::
  "(fl list \<Rightarrow> fl) \<Rightarrow> (fl list \<Rightarrow> fl) \<Rightarrow> fl list \<Rightarrow> tensor list \<Rightarrow> tensor list \<Rightarrow> vars
     \<Rightarrow> error + vars" where
  "batch_loss_stmts tsum tmean lvars y_hat y st =
     (case for_i [0..<length y] (task_body tsum lvars y_hat y) (st\<lparr>v_loss := PyInt 0\<rparr>) of
        Inl e \<Rightarrow> Inl e
      | Inr st' \<Rightarrow>
          (case torch_mean tmean (v_loss st') of
             Inl e \<Rightarrow> Inl e
           | Inr m \<Rightarrow> Inr (st'\<lparr>v_loss := m\<rparr>)))"

text \<open>
  The value of \<^verbatim>\<open>loss\<close> after the block.
\<close>

definition batch_loss ::
  "(fl list \<Rightarrow> fl) \<Rightarrow> (fl list \<Rightarrow> fl) \<Rightarrow> fl list \<Rightarrow> tensor list \<Rightarrow> tensor list \<Rightarrow> vars
     \<Rightarrow> error + pyval" where
  "batch_loss tsum tmean lvars y_hat y st =
     (case batch_loss_stmts tsum tmean lvars y_hat y st of
        Inl e \<Rightarrow> Inl e
      | Inr st' \<Rightarrow> Inr (v_loss st'))"

section \<open>Yardsticks\<close>

text \<open>
  The combined loss in real arithmetic, as a formula over nested lists (task, example,
  output dimension): the mean over the examples of the sum over the tasks of the sum over
  the output dimensions of \<open>exp (- log_var\<^sub>i) * (p - t)\<^sup>2 + log_var\<^sub>i\<close>.
\<close>

definition spec_combined_loss :: "real list \<Rightarrow> real list list list \<Rightarrow> real list list list \<Rightarrow> real" where
  "spec_combined_loss log_var p t =
     (\<Sum>b<length (p ! 0). \<Sum>i<length p. \<Sum>d<length (p ! i ! b).
        exp (- (log_var ! i)) * (p ! i ! b ! d - t ! i ! b ! d)\<^sup>2 + log_var ! i)
     / real (length (p ! 0))"

text \<open>
  What task \<open>i\<close> contributes at one entry, in the float32 operations of the loop, and the
  loop invariant: after \<open>k\<close> iterations \<^verbatim>\<open>loss\<close> is the integer 0 if \<open>k = 0\<close>, and otherwise a
  tensor of the batch shape \<open>bs\<close> that holds, at every index, the sum from left to right of
  the addends \<open>L 0\<close>, ..., \<open>L (k - 1)\<close>, started at 0.
\<close>

definition task_term :: "fl list \<Rightarrow> tensor list \<Rightarrow> tensor list \<Rightarrow> nat \<Rightarrow> nat list \<Rightarrow> fl" where
  "task_term lvars y_hat y i idx =
     fl_add f32
       (fl_mul f32 (fl_exp f32 (fl_neg (lvars ! i)))
          (fl_sq f32 (fl_sub f32 (elem (y_hat ! i) idx) (elem (y ! i) idx))))
       (lvars ! i)"

definition acc_ok :: "nat list \<Rightarrow> (nat \<Rightarrow> nat list \<Rightarrow> fl) \<Rightarrow> nat \<Rightarrow> pyval \<Rightarrow> bool" where
  "acc_ok bs L k v =
     (case v of
        PyInt n \<Rightarrow> k = 0 \<and> n = 0
      | Tensor t \<Rightarrow>
          0 < k \<and> shape t = bs \<and>
          list_all (\<lambda>idx. elem t idx = foldl (fl_add f32) (Fin 0) (map (\<lambda>i. L i idx) [0..<k]))
            (indices bs))"

section \<open>Rounding\<close>

lemma rne_of_int [simp]: "rne (of_int k) = k"
  by (simp add: rne_def)

lemma rne_bounds: "\<lfloor>x\<rfloor> \<le> rne x \<and> rne x \<le> \<lfloor>x\<rfloor> + 1"
  by (simp add: rne_def Let_def)

lemma rne_mono_ge:
  assumes "of_int k \<le> x"
  shows "k \<le> rne x"
proof -
  have "k \<le> \<lfloor>x\<rfloor>" using assms by (simp add: le_floor_iff)
  with rne_bounds [of x] show ?thesis by linarith
qed

lemma rne_nonneg: "0 \<le> x \<Longrightarrow> 0 \<le> rne x"
  using rne_mono_ge [of 0 x] by simp

lemma rne_small:
  assumes "0 \<le> x" "x \<le> 1 / 2"
  shows "rne x = 0"
proof -
  have "\<lfloor>x\<rfloor> = 0" using assms by (simp add: floor_eq_iff)
  with assms show ?thesis by (simp add: rne_def Let_def)
qed

lemma rne_pos:
  assumes "1 / 2 < x"
  shows "0 < rne x"
proof (cases "x < 1")
  case True
  with assms have "\<lfloor>x\<rfloor> = 0" by (simp add: floor_eq_iff)
  with assms show ?thesis by (simp add: rne_def Let_def)
next
  case False
  then have "of_int 1 \<le> x" by simp
  from rne_mono_ge [OF this] show ?thesis by simp
qed

lemma floor_log2_bounds:
  assumes "0 < x"
  shows "2 powr real_of_int \<lfloor>log 2 x\<rfloor> \<le> x" "x < 2 powr real_of_int (\<lfloor>log 2 x\<rfloor> + 1)"
  using floor_log_eq_powr_iff [of x 2 "\<lfloor>log 2 x\<rfloor>"] assms by simp_all

lemma floor_log2_ge:
  assumes "0 < x" "2 powr real_of_int k \<le> x"
  shows "k \<le> \<lfloor>log 2 x\<rfloor>"
proof -
  have "real_of_int k \<le> log 2 x"
    using assms by (simp add: le_log_iff)
  then show ?thesis by (simp add: le_floor_iff)
qed

lemma floor_log2_less:
  assumes "0 < x" "x < 2 powr real_of_int k"
  shows "\<lfloor>log 2 x\<rfloor> < k"
proof -
  have "log 2 x < real_of_int k"
    using assms by (simp add: log_less_iff)
  then show ?thesis by (simp add: floor_less_iff)
qed

text \<open>
  An integer that fits in the significand is a float.
\<close>

lemma fl_round_of_int:
  assumes "emin \<le> 0" "int p - 1 \<le> emax" "\<bar>n\<bar> < 2 ^ p"
  shows "fl_round p emin emax (of_int n) = Fin (of_int n)"
proof (cases "n = 0")
  case True
  then show ?thesis by (simp add: fl_round_def)
next
  case False
  define x :: real where "x = of_int n"
  define e where "e = \<lfloor>log 2 \<bar>x\<bar>\<rfloor>"
  have x1: "1 \<le> \<bar>x\<bar>" using False by (simp add: x_def)
  have xp: "\<bar>x\<bar> < 2 ^ p"
    using assms(3) unfolding x_def by (metis of_int_abs of_int_less_numeral_power_cancel_iff)
  have e0: "0 \<le> e"
    unfolding e_def using x1 floor_log2_ge [of "\<bar>x\<bar>" 0] by simp
  have ep: "e < int p"
    unfolding e_def using x1 xp floor_log2_less [of "\<bar>x\<bar>" "int p"] by (simp add: powr_realpow)
  define k where "k = nat (int p - 1 - e)"
  have u: "2 powr real_of_int (e - int p + 1) = 1 / 2 ^ k"
  proof -
    have "e - int p + 1 = - int k" using ep by (simp add: k_def)
    then have "2 powr real_of_int (e - int p + 1) = 2 powr (- real k)" by simp
    also have "\<dots> = 1 / 2 ^ k" by (simp add: powr_minus powr_realpow field_simps)
    finally show ?thesis .
  qed
  have q: "x / (1 / 2 ^ k) = of_int (n * 2 ^ k)" by (simp add: x_def)
  have big: "\<not> 2 powr real_of_int (emax + 1) \<le> \<bar>x\<bar>"
  proof -
    have "(2::real) ^ p \<le> 2 powr real_of_int (emax + 1)"
    proof -
      have "real p \<le> real_of_int (emax + 1)" using assms(2) by linarith
      then have "(2::real) powr real p \<le> 2 powr real_of_int (emax + 1)" by simp
      then show ?thesis by (simp add: powr_realpow)
    qed
    with xp show ?thesis by linarith
  qed
  have m: "max e emin = e" using e0 assms(1) by simp
  have "x \<noteq> 0" using x1 by auto
  then have "fl_round p emin emax x = Fin x"
    unfolding fl_round_def Let_def e_def [symmetric] m u q rne_of_int
    using big by (simp add: x_def)
  then show ?thesis by (simp add: x_def)
qed

text \<open>
  A positive number at or beyond \<open>2\<close> to the power \<open>emax + 1\<close> rounds to infinity.
\<close>

lemma fl_round_overflow:
  assumes "0 < p" "emin \<le> emax + 1" "2 powr real_of_int (emax + 1) \<le> x"
  shows "fl_round p emin emax x = PInf"
proof -
  have xpos: "0 < x" using assms(3) by (smt (verit) powr_gt_zero)
  define e where "e = \<lfloor>log 2 \<bar>x\<bar>\<rfloor>"
  have ee: "emax + 1 \<le> e"
    unfolding e_def using floor_log2_ge [of "\<bar>x\<bar>" "emax + 1"] xpos assms(3) by simp
  have m: "max e emin = e" using ee assms(2) by simp
  define u :: real where "u = 2 powr real_of_int (e - int p + 1)"
  have upos: "0 < u" by (simp add: u_def)
  have lo: "2 powr real_of_int e \<le> x"
    unfolding e_def using floor_log2_bounds(1) [of "\<bar>x\<bar>"] xpos by simp
  have split: "2 powr real_of_int e = 2 ^ (p - 1) * u"
  proof -
    have "real_of_int e = real (p - 1) + real_of_int (e - int p + 1)"
      using assms(1) by (simp add: of_nat_diff)
    then have "2 powr real_of_int e = 2 powr real (p - 1) * u"
      unfolding u_def by (metis powr_add)
    then show ?thesis by (simp add: powr_realpow)
  qed
  have "of_int (2 ^ (p - 1)) \<le> x / u"
    using lo split upos by (simp add: pos_le_divide_eq)
  then have "2 ^ (p - 1) \<le> rne (x / u)" by (rule rne_mono_ge)
  then have "(2::real) ^ (p - 1) \<le> real_of_int (rne (x / u))"
    by (metis of_int_le_iff of_int_numeral of_int_power)
  then have "2 ^ (p - 1) * u \<le> real_of_int (rne (x / u)) * u"
    using upos by simp
  then have y: "2 powr real_of_int e \<le> real_of_int (rne (x / u)) * u"
    using split by simp
  have "2 powr real_of_int (emax + 1) \<le> (2::real) powr real_of_int e"
    using ee by simp
  with y have "2 powr real_of_int (emax + 1) \<le> \<bar>real_of_int (rne (x / u)) * u\<bar>"
    by linarith
  then show ?thesis
    unfolding fl_round_def Let_def e_def [symmetric] m u_def [symmetric]
    using xpos by simp
qed

text \<open>
  A positive number rounds to infinity or to a float that is not negative; the float is
  positive exactly when the number exceeds half the smallest subnormal.
\<close>

lemma fl_round_pos:
  assumes "0 < p" "0 < x"
  shows "fl_round p emin emax x = PInf \<or>
         (\<exists>q. fl_round p emin emax x = Fin q \<and> 0 \<le> q \<and>
              (0 < q \<longleftrightarrow> 2 powr real_of_int (emin - int p) < x))"
proof -
  define e0 where "e0 = \<lfloor>log 2 \<bar>x\<bar>\<rfloor>"
  define e where "e = max e0 emin"
  define u :: real where "u = 2 powr real_of_int (e - int p + 1)"
  define r where "r = rne (x / u)"
  have upos: "0 < u" by (simp add: u_def)
  have rnn: "0 \<le> r" unfolding r_def using assms(2) upos by (intro rne_nonneg) simp
  have form: "fl_round p emin emax x =
      (if 2 powr real_of_int (emax + 1) \<le> \<bar>real_of_int r * u\<bar> then PInf else Fin (real_of_int r * u))"
    unfolding fl_round_def Let_def e0_def [symmetric] e_def [symmetric] u_def [symmetric] r_def [symmetric]
    using assms(2) by simp
  have rpos: "0 < r \<longleftrightarrow> 2 powr real_of_int (emin - int p) < x"
  proof (cases "2 powr real_of_int emin \<le> x")
    case True
    then have "emin \<le> e0"
      unfolding e0_def using floor_log2_ge [of "\<bar>x\<bar>" emin] assms(2) by simp
    then have e: "e = e0" by (simp add: e_def)
    have lo: "2 powr real_of_int e0 \<le> x"
      unfolding e0_def using floor_log2_bounds(1) [of "\<bar>x\<bar>"] assms(2) by simp
    have "real_of_int (e0 - int p + 1) \<le> real_of_int e0" using assms(1) by simp
    then have "u \<le> 2 powr real_of_int e0" unfolding u_def e by simp
    with lo have "u \<le> x" by linarith
    then have "of_int 1 \<le> x / u" using upos by (simp add: pos_le_divide_eq)
    then have "1 \<le> r" unfolding r_def by (rule rne_mono_ge)
    moreover have "2 powr real_of_int (emin - int p) < x"
    proof -
      have "(2::real) powr real_of_int (emin - int p) < 2 powr real_of_int emin"
        using assms(1) by simp
      with True show ?thesis by linarith
    qed
    ultimately show ?thesis by simp
  next
    case False
    then have "e0 < emin"
      unfolding e0_def using floor_log2_less [of "\<bar>x\<bar>" emin] assms(2) by simp
    then have e: "e = emin" by (simp add: e_def)
    have half: "u / 2 = 2 powr real_of_int (emin - int p)"
    proof -
      have "real_of_int (emin - int p) = real_of_int (emin - int p + 1) - 1" by simp
      then have "2 powr real_of_int (emin - int p) = 2 powr real_of_int (emin - int p + 1) / 2"
        by (metis powr_diff powr_one zero_less_numeral less_eq_real_def)
      then show ?thesis by (simp add: u_def e)
    qed
    show ?thesis
    proof (cases "1 / 2 < x / u")
      case True
      then have "0 < r" unfolding r_def by (rule rne_pos)
      moreover have "u / 2 < x" using True upos by (simp add: pos_less_divide_eq)
      ultimately show ?thesis using half by simp
    next
      case False
      then have "x / u \<le> 1 / 2" by simp
      moreover have "0 \<le> x / u" using assms(2) upos by simp
      ultimately have "r = 0" unfolding r_def by (intro rne_small)
      moreover have "\<not> u / 2 < x" using False upos by (simp add: pos_less_divide_eq)
      ultimately show ?thesis using half by simp
    qed
  qed
  have "0 \<le> real_of_int r * u" using rnn upos by simp
  moreover have "0 < real_of_int r * u \<longleftrightarrow> 0 < r" using upos by (simp add: zero_less_mult_iff)
  ultimately show ?thesis using form rpos by auto
qed

lemma fl_round_underflow:
  assumes "0 < p" "0 < x" "x \<le> 2 powr real_of_int (emin - int p)"
  shows "fl_round p emin emax x = Fin 0"
proof -
  have lt: "x < 2 powr real_of_int emin"
  proof -
    have "(2::real) powr real_of_int (emin - int p) < 2 powr real_of_int emin"
      using assms(1) by simp
    with assms(3) show ?thesis by linarith
  qed
  then have "\<lfloor>log 2 \<bar>x\<bar>\<rfloor> < emin"
    using floor_log2_less [of "\<bar>x\<bar>" emin] assms(2) by simp
  then have m: "max \<lfloor>log 2 \<bar>x\<bar>\<rfloor> emin = emin" by simp
  define u :: real where "u = 2 powr real_of_int (emin - int p + 1)"
  have upos: "0 < u" by (simp add: u_def)
  have half: "u / 2 = 2 powr real_of_int (emin - int p)"
  proof -
    have "real_of_int (emin - int p) = real_of_int (emin - int p + 1) - 1" by simp
    then have "2 powr real_of_int (emin - int p) = 2 powr real_of_int (emin - int p + 1) / 2"
      by (metis powr_diff powr_one zero_less_numeral less_eq_real_def)
    then show ?thesis by (simp add: u_def)
  qed
  have "x / u \<le> 1 / 2" using assms(3) half upos by (simp add: pos_divide_le_eq)
  moreover have "0 \<le> x / u" using assms(2) upos by simp
  ultimately have "rne (x / u) = 0" by (intro rne_small)
  then show ?thesis
    unfolding fl_round_def Let_def m u_def [symmetric]
    using assms(2) by simp
qed

lemma f32_of_int: "\<bar>n\<bar> < 2 ^ 24 \<Longrightarrow> f32 (of_int n) = Fin (of_int n)"
  unfolding f32_def by (rule fl_round_of_int) simp_all

lemma f64_of_int: "\<bar>n\<bar> < 2 ^ 53 \<Longrightarrow> f64 (of_int n) = Fin (of_int n)"
  unfolding f64_def by (rule fl_round_of_int) simp_all

lemma f32_0 [simp]: "f32 0 = Fin 0"
  by (simp add: f32_def fl_round_def)

lemma f32_1 [simp]: "f32 1 = Fin 1"
  using f32_of_int [of 1] by simp

lemma f32_numeral: "numeral k < (2 ^ 24 :: int) \<Longrightarrow> f32 (numeral k) = Fin (numeral k)"
  using f32_of_int [of "numeral k"] by simp

lemma f32_of_nat: "n < 2 ^ 24 \<Longrightarrow> f32 (real n) = Fin (real n)"
  using f32_of_int [of "int n"] by simp

lemma f64_numeral: "numeral k < (2 ^ 53 :: int) \<Longrightarrow> f64 (numeral k) = Fin (numeral k)"
  using f64_of_int [of "numeral k"] by simp

text \<open>
  Bounds on the exponential, from the partial sums of its series.
\<close>

lemma exp_ge_partial_sum:
  assumes "0 \<le> (x::real)"
  shows "(\<Sum>k<n. x ^ k / fact k) \<le> exp x"
proof -
  have "(\<Sum>k<n. x ^ k /\<^sub>R fact k) \<le> (\<Sum>k. x ^ k /\<^sub>R fact k)"
    using assms by (intro sum_le_suminf summable_exp_generic) simp_all
  then show ?thesis by (simp add: exp_def divide_inverse mult.commute)
qed

lemma exp_52_75: "2 \<le> exp (52 / 75 :: real)"
proof -
  have "(2::real) \<le> (\<Sum>k<6. (52 / 75) ^ k / fact k)"
    by (simp add: lessThan_Suc eval_nat_numeral fact_numeral)
  also have "\<dots> \<le> exp (52 / 75)" by (rule exp_ge_partial_sum) simp
  finally show ?thesis .
qed

lemma exp_104: "2 ^ 150 \<le> exp (104 :: real)"
proof -
  have "(2::real) ^ 150 \<le> exp (52 / 75) ^ 150"
    using exp_52_75 by (intro power_mono) simp_all
  also have "\<dots> = exp (of_nat 150 * (52 / 75))" by (rule exp_of_nat_mult [symmetric])
  also have "\<dots> = exp 104" by simp
  finally show ?thesis .
qed

lemma exp_25_32: "2 \<le> exp (25 / 32 :: real)"
proof -
  have "(2::real) \<le> (\<Sum>k<3. (25 / 32) ^ k / fact k)"
    by (simp add: lessThan_Suc eval_nat_numeral fact_numeral)
  also have "\<dots> \<le> exp (25 / 32)" by (rule exp_ge_partial_sum) simp
  finally show ?thesis .
qed

lemma exp_100: "2 ^ 128 \<le> exp (100 :: real)"
proof -
  have "(2::real) ^ 128 \<le> exp (25 / 32) ^ 128"
    using exp_25_32 by (intro power_mono) simp_all
  also have "\<dots> = exp (of_nat 128 * (25 / 32))" by (rule exp_of_nat_mult [symmetric])
  also have "\<dots> = exp 100" by simp
  finally show ?thesis .
qed

lemma f32_exp_underflow:
  assumes "104 \<le> x"
  shows "f32 (exp (- x)) = Fin 0"
proof -
  have "exp (- x) \<le> exp (- 104 :: real)" using assms by simp
  also have "\<dots> = 1 / exp 104" by (simp add: exp_minus inverse_eq_divide)
  also have "\<dots> \<le> 1 / 2 ^ 150"
    using exp_104 by (intro divide_left_mono) simp_all
  also have "\<dots> = 2 powr real_of_int (- 126 - int 24)"
    by (simp add: powr_minus_divide powr_realpow [symmetric])
  finally have "exp (- x) \<le> 2 powr real_of_int (- 126 - int 24)" .
  then show ?thesis
    unfolding f32_def by (intro fl_round_underflow) simp_all
qed

lemma f32_exp_overflow:
  assumes "100 \<le> x"
  shows "f32 (exp x) = PInf"
proof -
  have "(2::real) powr real_of_int (127 + 1) = 2 ^ 128"
    by (simp add: powr_realpow [symmetric])
  also have "\<dots> \<le> exp 100" by (rule exp_100)
  also have "\<dots> \<le> exp x" using assms by simp
  finally show ?thesis
    unfolding f32_def by (intro fl_round_overflow) simp_all
qed

lemma f32_exp_sign:
  "f32 (exp x) = PInf \<or>
   (\<exists>q. f32 (exp x) = Fin q \<and> 0 \<le> q \<and> (0 < q \<longleftrightarrow> 2 powr (- 150) < exp x))"
  using fl_round_pos [of 24 "exp x" "- 126" 127] by (simp add: f32_def)

section \<open>Properties of the wrapper\<close>

text \<open>
  C4, as the code has it. For every index \<open>i\<close> into the log-variance vector and every finite
  value \<open>x\<close> stored there, \<^verbatim>\<open>precision = torch.exp(-log_vars[i])\<close> is computed without error
  and is the float32 nearest to \<open>exp (- x)\<close>. It is never negative and never nan: it is
  \<open>+inf\<close> or a float that is at least 0, and that float is strictly positive exactly when
  \<open>exp (- x)\<close> exceeds \<open>2\<close> to the power \<open>-150\<close>, half the smallest positive float32. For every
  \<open>x \<ge> 104\<close> the precision is exactly 0.
\<close>

theorem precision_sign:
  assumes "i < length lvars" "lvars ! i = Fin x"
  shows "precision_at lvars i = Inr (f32 (exp (- x))) \<and>
         (f32 (exp (- x)) = PInf \<or>
          (\<exists>q. f32 (exp (- x)) = Fin q \<and> 0 \<le> q \<and> (0 < q \<longleftrightarrow> 2 powr (- 150) < exp (- x)))) \<and>
         (104 \<le> x \<longrightarrow> precision_at lvars i = Inr (Fin 0))"
  using assms f32_exp_sign [of "- x"] by (simp add: precision_at_def f32_exp_underflow)

theorem precision_sign_witness:
  "precision_at [Fin 0, Fin 200] 1 = Inr (Fin 0) \<and> precision_at [Fin 0, Fin 200] 0 = Inr (Fin 1)"
proof -
  have a: "1 < length [Fin 0, Fin 200]" "[Fin 0, Fin 200] ! 1 = Fin 200" by simp_all
  have "104 \<le> (200::real) \<longrightarrow> precision_at [Fin 0, Fin 200] 1 = Inr (Fin 0)"
    using precision_sign [OF a] by blast
  then have "precision_at [Fin 0, Fin 200] 1 = Inr (Fin 0)" by simp
  moreover have b: "0 < length [Fin 0, Fin 200]" "[Fin 0, Fin 200] ! 0 = Fin 0" by simp_all
  have "precision_at [Fin 0, Fin 200] 0 = Inr (f32 (exp (- 0)))"
    using precision_sign [OF b] by blast
  then have "precision_at [Fin 0, Fin 200] 0 = Inr (Fin 1)" by simp
  ultimately show ?thesis by simp
qed

text \<open>
  C4 as stated, strictly positive for every finite log-variance, fails at the log-variance
  104: \<open>exp (- 104)\<close> is below \<open>2\<close> to the power \<open>-150\<close> and rounds to the float 0.
\<close>

theorem precision_zero_at_104:
  "precision_at [Fin 104] 0 = Inr (Fin 0)"
  by (simp add: precision_at_def f32_exp_underflow)

text \<open>
  C6. Constructing the wrapper for \<open>n\<close> tasks creates a log-variance vector of length
  exactly \<open>n\<close> whose entries are all zero, so that the precision of every task is 1 before
  any optimizer step.
\<close>

theorem wrapper_init_zero:
  "length (log_vars (wrapper_init n)) = n \<and>
   (\<forall>i<n. log_vars (wrapper_init n) ! i = Fin 0 \<and>
           precision_at (log_vars (wrapper_init n)) i = Inr (Fin 1))"
  by (simp add: wrapper_init_def precision_at_def)

theorem wrapper_init_zero_witness:
  "length (log_vars (wrapper_init 2)) = 2 \<and>
   log_vars (wrapper_init 2) ! 1 = Fin 0 \<and>
   precision_at (log_vars (wrapper_init 2)) 1 = Inr (Fin 1)"
  using wrapper_init_zero [of 2] by simp

text \<open>
  C10. For every tuple of prediction tensors \<open>X\<close>, \<^verbatim>\<open>forward\<close> returns the pair of the
  log-variance parameter and \<open>X\<close> itself, and leaves the module as it was: it computes no
  loss and changes no state.
\<close>

theorem forward_passes_through:
  "forward self X = ((log_vars self, X), self)"
  by (simp add: forward_def)

section \<open>Indices and broadcasting\<close>

lemma set_indices: "set (indices s) = {idx. list_all2 (<) idx s}"
proof (induction s)
  case Nil
  then show ?case by auto
next
  case (Cons d ds)
  show ?case
  proof (intro set_eqI iffI)
    fix idx assume "idx \<in> set (indices (d # ds))"
    then obtain k r where "k < d" "r \<in> set (indices ds)" "idx = k # r" by auto
    then show "idx \<in> {idx. list_all2 (<) idx (d # ds)}" using Cons.IH by auto
  next
    fix idx assume "idx \<in> {idx. list_all2 (<) idx (d # ds)}"
    then obtain k r where "idx = k # r" "k < d" "list_all2 (<) r ds"
      by (auto simp: list_all2_Cons2)
    then show "idx \<in> set (indices (d # ds))" using Cons.IH by auto
  qed
qed

lemma indices_snoc:
  "idx \<in> set (indices bs) \<Longrightarrow> d < D \<Longrightarrow> idx @ [d] \<in> set (indices (bs @ [D]))"
  by (simp add: set_indices list_all2_appendI)

lemma indices_single: "indices [n] = map (\<lambda>k. [k]) [0..<n]"
  by (simp add: comp_def concat_map_singleton)

lemma indices_two: "b < B \<Longrightarrow> c < C \<Longrightarrow> [b, c] \<in> set (indices [B, C])"
  by (simp add: set_indices del: indices.simps)

lemma bidx_in_range:
  assumes "idx \<in> set (indices s)"
  shows "bidx s idx = idx"
proof -
  have a: "list_all2 (<) idx s" using assms by (simp add: set_indices)
  then have "map2 (\<lambda>d k. if d = 1 then 0 else k) s idx = idx"
    by (induction idx s rule: list_all2_induct) auto
  with a show ?thesis by (simp add: bidx_def list_all2_lengthD)
qed

lemma bshape_rev_same: "bshape_rev s s = Some s"
  by (induction s) (simp_all add: broadcast_dim_def)

lemma bshape_same: "bshape s s = Some s"
  by (simp add: bshape_def bshape_rev_same)

lemma tensor_op_same_shape:
  assumes "shape a = s" "shape b = s"
  shows "\<exists>t. tensor_op f a b = Some t \<and> shape t = s \<and>
             (\<forall>idx\<in>set (indices s). elem t idx = f (elem a idx) (elem b idx))"
  using assms by (simp add: tensor_op_def bshape_same bidx_in_range)

lemma bidx_column: "b < B \<Longrightarrow> bidx [B, Suc 0] [b, c] = [b, 0]"
  by (auto simp: bidx_def)

lemma bshape_column: "bshape [B, Suc 0] [B, C] = Some [B, C]"
  by (simp add: bshape_def broadcast_dim_def)

text \<open>
  A single column against \<open>C\<close> columns: the subtraction raises nothing, and the column is
  read for every column of the result.
\<close>

lemma torch_sub_column:
  assumes "shape p = [B, 1]" "shape t = [B, C]"
  shows "\<exists>d. torch_sub p t = Inr d \<and> shape d = [B, C] \<and>
             (\<forall>b<B. \<forall>c<C. elem d [b, c] = fl_sub f32 (elem p [b, 0]) (elem t [b, c]))"
  using assms
  by (simp add: torch_sub_def tensor_op_def bshape_column bidx_column bidx_in_range [OF indices_two])

section \<open>One iteration of the task loop\<close>

text \<open>
  Whatever tensor \<open>d\<close> the subtraction \<^verbatim>\<open>y_hat[i] - y[i]\<close> yields, the iteration adds to
  \<^verbatim>\<open>loss\<close> the reduction over the last dimension of \<open>precision * d\<^sup>2 + log_vars[i]\<close>; the only
  error left is the one of \<^verbatim>\<open>loss += ...\<close>.
\<close>

lemma task_body_step:
  assumes "i < length lvars" "i < length y_hat" "i < length y" "v_i st = i"
    and "torch_sub (y_hat ! i) (y ! i) = Inr d" "shape d = bs @ [D]"
  shows "\<exists>t. task_body tsum lvars y_hat y st =
               (case iadd (v_loss st) t of Inl e \<Rightarrow> Inl e | Inr l \<Rightarrow> Inr (st\<lparr>v_loss := l\<rparr>)) \<and>
             shape t = bs \<and>
             (\<forall>idx. elem t idx =
                tsum (map (\<lambda>k. fl_add f32
                                 (fl_mul f32 (fl_exp f32 (fl_neg (lvars ! i)))
                                    (fl_sq f32 (elem d (idx @ [k]))))
                                 (lvars ! i)) [0..<D]))"
proof -
  let ?t = "torch_sum_last tsum
              (map_tensor (\<lambda>x. fl_add f32 x (lvars ! i))
                 (map_tensor (\<lambda>x. fl_mul f32 (fl_exp f32 (fl_neg (lvars ! i))) x)
                    (map_tensor (fl_sq f32) d)))"
  have "task_body tsum lvars y_hat y st =
          (case iadd (v_loss st) ?t of Inl e \<Rightarrow> Inl e | Inr l \<Rightarrow> Inr (st\<lparr>v_loss := l\<rparr>))"
    using assms(1-5) by (simp add: task_body_def precision_at_def Let_def)
  moreover have "shape ?t = bs"
    using assms(6) by (simp add: torch_sum_last_def map_tensor_def)
  moreover have "elem ?t idx =
      tsum (map (\<lambda>k. fl_add f32
                       (fl_mul f32 (fl_exp f32 (fl_neg (lvars ! i)))
                          (fl_sq f32 (elem d (idx @ [k]))))
                       (lvars ! i)) [0..<D])" for idx
    using assms(6) by (simp add: torch_sum_last_def map_tensor_def)
  ultimately show ?thesis by blast
qed

lemma task_body_same_shape:
  assumes "i < length lvars" "i < length y_hat" "i < length y" "v_i st = i"
    and "shape (y_hat ! i) = bs @ [D]" "shape (y ! i) = bs @ [D]"
  shows "\<exists>t. task_body tsum lvars y_hat y st =
               (case iadd (v_loss st) t of Inl e \<Rightarrow> Inl e | Inr l \<Rightarrow> Inr (st\<lparr>v_loss := l\<rparr>)) \<and>
             shape t = bs \<and>
             (\<forall>idx\<in>set (indices bs). elem t idx =
                tsum (map (\<lambda>k. task_term lvars y_hat y i (idx @ [k])) [0..<D]))"
proof -
  obtain d where d: "tensor_op (fl_sub f32) (y_hat ! i) (y ! i) = Some d" "shape d = bs @ [D]"
    "\<forall>idx\<in>set (indices (bs @ [D])). elem d idx = fl_sub f32 (elem (y_hat ! i) idx) (elem (y ! i) idx)"
    using tensor_op_same_shape [OF assms(5,6)] by blast
  then have sub: "torch_sub (y_hat ! i) (y ! i) = Inr d" by (simp add: torch_sub_def)
  from task_body_step [OF assms(1-4) sub d(2), of tsum] obtain t where
    t: "task_body tsum lvars y_hat y st =
          (case iadd (v_loss st) t of Inl e \<Rightarrow> Inl e | Inr l \<Rightarrow> Inr (st\<lparr>v_loss := l\<rparr>))"
       "shape t = bs"
       "\<And>idx. elem t idx =
          tsum (map (\<lambda>k. fl_add f32
                           (fl_mul f32 (fl_exp f32 (fl_neg (lvars ! i)))
                              (fl_sq f32 (elem d (idx @ [k]))))
                           (lvars ! i)) [0..<D])"
    by blast
  have "elem t idx = tsum (map (\<lambda>k. task_term lvars y_hat y i (idx @ [k])) [0..<D])"
    if "idx \<in> set (indices bs)" for idx
  proof -
    have "elem d (idx @ [k]) = fl_sub f32 (elem (y_hat ! i) (idx @ [k])) (elem (y ! i) (idx @ [k]))"
      if "k < D" for k
      using d(3) indices_snoc [OF \<open>idx \<in> set (indices bs)\<close> that] by blast
    then show ?thesis
      unfolding t(3) by (intro arg_cong [where f = tsum] map_cong refl) (simp add: task_term_def)
  qed
  with t(1,2) show ?thesis by blast
qed

section \<open>The task loop\<close>

lemma iadd_acc_ok:
  assumes "acc_ok bs L k v" "shape t = bs" "\<forall>idx\<in>set (indices bs). elem t idx = L k idx"
  shows "\<exists>v'. iadd v t = Inr v' \<and> acc_ok bs L (Suc k) v'"
proof (cases v)
  case (PyInt n)
  with assms show ?thesis
    by (simp add: acc_ok_def map_tensor_def list_all_iff)
next
  case (Tensor l)
  with assms show ?thesis
    by (simp add: acc_ok_def bshape_same list_all_iff bidx_in_range)
qed

lemma for_i_tasks:
  assumes len: "length y_hat = length y" "length y \<le> length lvars"
    and shapes: "\<forall>i<length y. shape (y_hat ! i) = bs @ [D i] \<and> shape (y ! i) = bs @ [D i]"
    and k: "k \<le> length y"
    and acc: "acc_ok bs (\<lambda>i idx. tsum (map (\<lambda>d. task_term lvars y_hat y i (idx @ [d])) [0..<D i])) k (v_loss st)"
  shows "\<exists>v. for_i [k..<length y] (task_body tsum lvars y_hat y) st =
               Inr \<lparr>v_i = (if k < length y then length y - 1 else v_i st), v_loss = v\<rparr> \<and>
             acc_ok bs (\<lambda>i idx. tsum (map (\<lambda>d. task_term lvars y_hat y i (idx @ [d])) [0..<D i]))
               (length y) v"
  using k acc
proof (induction "length y - k" arbitrary: k st)
  case 0
  then show ?case by (cases st) simp
next
  case (Suc n)
  then have lt: "k < length y" by simp
  let ?L = "\<lambda>i idx. tsum (map (\<lambda>d. task_term lvars y_hat y i (idx @ [d])) [0..<D i])"
  let ?st = "st\<lparr>v_i := k\<rparr>"
  have "\<exists>t. task_body tsum lvars y_hat y ?st =
       (case iadd (v_loss ?st) t of Inl e \<Rightarrow> Inl e | Inr l \<Rightarrow> Inr (?st\<lparr>v_loss := l\<rparr>)) \<and>
    shape t = bs \<and> (\<forall>idx\<in>set (indices bs). elem t idx = ?L k idx)"
    using task_body_same_shape [where i = k and lvars = lvars and y_hat = y_hat and y = y
        and st = ?st and bs = bs and D = "D k" and tsum = tsum] lt len shapes by simp
  then obtain t where t:
    "task_body tsum lvars y_hat y ?st =
       (case iadd (v_loss ?st) t of Inl e \<Rightarrow> Inl e | Inr l \<Rightarrow> Inr (?st\<lparr>v_loss := l\<rparr>))"
    "shape t = bs" "\<forall>idx\<in>set (indices bs). elem t idx = ?L k idx"
    by blast
  obtain v' where v': "iadd (v_loss st) t = Inr v'" "acc_ok bs ?L (Suc k) v'"
    using iadd_acc_ok [OF Suc.prems(2) t(2,3)] by blast
  have body: "task_body tsum lvars y_hat y ?st = Inr (?st\<lparr>v_loss := v'\<rparr>)"
    using t(1) v'(1) by simp
  have "\<exists>v. for_i [Suc k..<length y] (task_body tsum lvars y_hat y) (?st\<lparr>v_loss := v'\<rparr>) =
       Inr \<lparr>v_i = (if Suc k < length y then length y - 1 else v_i (?st\<lparr>v_loss := v'\<rparr>)), v_loss = v\<rparr> \<and>
     acc_ok bs ?L (length y) v"
    using Suc.hyps(2) lt v'(2) by (intro Suc.hyps(1)) simp_all
  then obtain v where v:
    "for_i [Suc k..<length y] (task_body tsum lvars y_hat y) (?st\<lparr>v_loss := v'\<rparr>) =
       Inr \<lparr>v_i = (if Suc k < length y then length y - 1 else v_i (?st\<lparr>v_loss := v'\<rparr>)), v_loss = v\<rparr>"
    "acc_ok bs ?L (length y) v"
    by blast
  show ?case
    using lt body v by (auto simp: upt_conv_Cons)
qed

lemma batch_loss_same_shape:
  assumes "0 < length y" "length y_hat = length y" "length y \<le> length lvars"
    and "\<forall>i<length y. shape (y_hat ! i) = bs @ [D i] \<and> shape (y ! i) = bs @ [D i]"
  shows "batch_loss_stmts tsum tmean lvars y_hat y st =
           Inr \<lparr>v_i = length y - 1,
                v_loss = Tensor (scalar_tensor (tmean (map (\<lambda>b.
                  foldl (fl_add f32) (Fin 0)
                    (map (\<lambda>i. tsum (map (\<lambda>d. task_term lvars y_hat y i (b @ [d])) [0..<D i]))
                       [0..<length y])) (indices bs))))\<rparr>"
proof -
  let ?L = "\<lambda>i idx. tsum (map (\<lambda>d. task_term lvars y_hat y i (idx @ [d])) [0..<D i])"
  let ?st = "st\<lparr>v_loss := PyInt 0\<rparr>"
  have "acc_ok bs ?L 0 (v_loss ?st)" by (simp add: acc_ok_def)
  from for_i_tasks [OF assms(2-4) _ this] assms(1) obtain v where
    v: "for_i [0..<length y] (task_body tsum lvars y_hat y) ?st = Inr \<lparr>v_i = length y - 1, v_loss = v\<rparr>"
       "acc_ok bs ?L (length y) v"
    by auto
  from v(2) assms(1) obtain t where t: "v = Tensor t" "shape t = bs"
    "\<forall>idx\<in>set (indices bs). elem t idx = foldl (fl_add f32) (Fin 0) (map (\<lambda>i. ?L i idx) [0..<length y])"
    by (cases v) (auto simp: acc_ok_def list_all_iff)
  have eq: "map (elem t) (indices bs) =
          map (\<lambda>b. foldl (fl_add f32) (Fin 0) (map (\<lambda>i. ?L i b) [0..<length y])) (indices bs)"
    using t(3) by (intro map_cong refl) simp
  show ?thesis
    by (simp add: batch_loss_stmts_def v(1) t(1,2) eq)
qed

lemma batch_loss_value_same_shape:
  assumes "0 < length y" "length y_hat = length y" "length y \<le> length lvars"
    and "\<forall>i<length y. shape (y_hat ! i) = bs @ [D i] \<and> shape (y ! i) = bs @ [D i]"
  shows "batch_loss tsum tmean lvars y_hat y st =
           Inr (Tensor (scalar_tensor (tmean (map (\<lambda>b.
             foldl (fl_add f32) (Fin 0)
               (map (\<lambda>i. tsum (map (\<lambda>d.
                  fl_add f32
                    (fl_mul f32 (fl_exp f32 (fl_neg (lvars ! i)))
                       (fl_sq f32 (fl_sub f32 (elem (y_hat ! i) (b @ [d])) (elem (y ! i) (b @ [d])))))
                    (lvars ! i)) [0..<D i]))
                  [0..<length y])) (indices bs)))))"
  using batch_loss_same_shape [OF assms, of tsum tmean st]
  by (simp add: batch_loss_def task_term_def)

text \<open>
  One task whose prediction is a single column.
\<close>

lemma batch_loss_column:
  assumes "lvars \<noteq> []" "shape p = [B, 1]" "shape t = [B, C]"
  shows "batch_loss tsum tmean lvars [p] [t] st =
           Inr (Tensor (scalar_tensor (tmean (map (\<lambda>b.
             fl_add f32 (Fin 0)
               (tsum (map (\<lambda>c.
                  fl_add f32
                    (fl_mul f32 (fl_exp f32 (fl_neg (lvars ! 0)))
                       (fl_sq f32 (fl_sub f32 (elem p [b, 0]) (elem t [b, c]))))
                    (lvars ! 0)) [0..<C]))) [0..<B]))))"
proof -
  obtain d where d: "torch_sub p t = Inr d" "shape d = [B] @ [C]"
    "\<And>b c. b < B \<Longrightarrow> c < C \<Longrightarrow> elem d [b, c] = fl_sub f32 (elem p [b, 0]) (elem t [b, c])"
    using torch_sub_column [OF assms(2,3)] by auto
  let ?st = "st\<lparr>v_loss := PyInt 0, v_i := 0\<rparr>"
  from task_body_step [where i = 0 and lvars = lvars and y_hat = "[p]" and y = "[t]" and st = ?st
      and d = d and bs = "[B]" and D = C and tsum = tsum] assms(1) d(1,2)
  obtain u where u:
    "task_body tsum lvars [p] [t] ?st =
       (case iadd (PyInt 0) u of Inl e \<Rightarrow> Inl e | Inr l \<Rightarrow> Inr (?st\<lparr>v_loss := l\<rparr>))"
    "shape u = [B]"
    "\<And>idx. elem u idx =
        tsum (map (\<lambda>k. fl_add f32
                         (fl_mul f32 (fl_exp f32 (fl_neg (lvars ! 0))) (fl_sq f32 (elem d (idx @ [k]))))
                         (lvars ! 0)) [0..<C])"
    by auto
  have row: "elem u [b] =
        tsum (map (\<lambda>c. fl_add f32
                         (fl_mul f32 (fl_exp f32 (fl_neg (lvars ! 0)))
                            (fl_sq f32 (fl_sub f32 (elem p [b, 0]) (elem t [b, c]))))
                         (lvars ! 0)) [0..<C])" if "b < B" for b
    unfolding u(3) using d(3) [OF that] by (intro arg_cong [where f = tsum] map_cong refl) simp
  have m: "map (\<lambda>x. fl_add f32 (Fin 0) (elem u [x])) [0..<B] =
        map (\<lambda>b. fl_add f32 (Fin 0)
               (tsum (map (\<lambda>c. fl_add f32
                         (fl_mul f32 (fl_exp f32 (fl_neg (lvars ! 0)))
                            (fl_sq f32 (fl_sub f32 (elem p [b, 0]) (elem t [b, c]))))
                         (lvars ! 0)) [0..<C]))) [0..<B]"
    using row by (intro map_cong refl) simp
  show ?thesis
    by (simp add: batch_loss_def batch_loss_stmts_def u(1,2) map_tensor_def indices_single comp_def m)
qed

text \<open>
  The left-to-right reductions on the values that the examples below meet.
\<close>

lemma foldl_add_replicate:
  assumes "a + n * c < 2 ^ 24"
  shows "foldl (fl_add f32) (Fin (real a)) (replicate n (Fin (real c))) = Fin (real (a + n * c))"
  using assms
proof (induction n arbitrary: a)
  case 0
  then show ?case by simp
next
  case (Suc n)
  have "a + c < 2 ^ 24" using Suc.prems by (simp add: algebra_simps)
  then have "f32 (real a + real c) = Fin (real (a + c))"
    using f32_of_nat [of "a + c"] by simp
  moreover have "a + c + n * c < 2 ^ 24" using Suc.prems by (simp add: algebra_simps)
  ultimately show ?case
    using Suc.IH [of "a + c"] by (simp add: algebra_simps)
qed

lemma seq_mean_replicate:
  assumes "0 < n" "n * c < 2 ^ 24"
  shows "seq_mean f32 (replicate n (Fin (real c))) = Fin (real c)"
proof -
  have "seq_sum f32 (replicate n (Fin (real c))) = Fin (real (n * c))"
    using foldl_add_replicate [of 0 n c] assms(2) by (simp add: seq_sum_def)
  moreover have "c < 2 ^ 24"
    using assms by (metis le_less_trans mult_le_cancel2 One_nat_def Suc_leI mult_1)
  ultimately show ?thesis
    using assms(1) by (simp add: seq_mean_def f32_of_nat)
qed

lemma scenario_value:
  assumes "tsum [Fin 4] = Fin 4" "tmean [Fin 4] = Fin 4" "s = [1] \<or> s = [1, 1]"
  shows "batch_loss tsum tmean [Fin 0, Fin 0] [full s (Fin 5)] [full s (Fin 3)] st =
           Inr (Tensor (scalar_tensor (Fin 4)))"
proof -
  have n: "f32 2 = Fin 2" "f32 4 = Fin 4" by (simp_all add: f32_numeral)
  from assms(3) obtain bs where s: "s = bs @ [1]" "bs = [] \<or> bs = [1]" by auto
  have sh: "\<forall>i<length [full s (Fin 3)]. shape ([full s (Fin 5)] ! i) = bs @ [(\<lambda>i. 1) i] \<and>
              shape ([full s (Fin 3)] ! i) = bs @ [(\<lambda>i. 1) i]"
    by (simp add: full_def s)
  have ix: "indices bs = [replicate (length bs) 0]" using s(2) by auto
  show ?thesis
    using batch_loss_value_same_shape [where y = "[full s (Fin 3)]" and y_hat = "[full s (Fin 5)]"
        and lvars = "[Fin 0, Fin 0]" and bs = bs and D = "\<lambda>i. 1" and tsum = tsum and tmean = tmean
        and st = st, OF _ _ _ sh]
    by (simp add: ix assms(1,2) full_def fl_sub_def fl_sq_def n)
qed

section \<open>Properties of the batch loss\<close>

text \<open>
  C1, as the code has it. Let there be \<open>T \<ge> 1\<close> tasks, a log-variance vector with at least
  \<open>T\<close> entries, and \<open>T\<close> predictions and \<open>T\<close> targets of matching shapes: prediction and target
  of task \<open>i\<close> have the same shape, whose last dimension \<open>D i\<close> is the task's output dimension
  and whose leading dimensions \<open>bs\<close>, the batch dimensions, are those of every task. Then the
  block raises nothing, and \<^verbatim>\<open>loss\<close> ends as the mean over the batch indices of the sum over
  the tasks of the sum over the output dimension of
  \<open>exp (- log_var\<^sub>i) * (prediction\<^sub>i - target\<^sub>i)\<^sup>2 + log_var\<^sub>i\<close>, where every operation is the
  float32 operation of the code: each result is rounded, infinities and nan propagate, the
  two reductions are torch's, and the sum over the tasks runs from left to right, started
  at the integer 0. The value does not depend on the variables on entry.

  In particular, with \<^verbatim>\<open>log_var = [0, 0]\<close>, one task, one example, prediction 5.0 and target
  3.0 (as a tensor of shape \<open>(1)\<close> or \<open>(1, 1)\<close>), the loss is exactly 4.0, provided only that
  the reductions of the single value 4.0 return 4.0.
\<close>

theorem batch_loss_formula:
  assumes "0 < length y" "length y_hat = length y" "length y \<le> length lvars"
    and "\<forall>i<length y. shape (y_hat ! i) = bs @ [D i] \<and> shape (y ! i) = bs @ [D i]"
  shows "batch_loss tsum tmean lvars y_hat y st =
           Inr (Tensor (scalar_tensor (tmean (map (\<lambda>b.
             foldl (fl_add f32) (Fin 0)
               (map (\<lambda>i. tsum (map (\<lambda>d.
                  fl_add f32
                    (fl_mul f32 (fl_exp f32 (fl_neg (lvars ! i)))
                       (fl_sq f32 (fl_sub f32 (elem (y_hat ! i) (b @ [d])) (elem (y ! i) (b @ [d])))))
                    (lvars ! i)) [0..<D i]))
                  [0..<length y])) (indices bs))))) \<and>
         (tsum [Fin 4] = Fin 4 \<longrightarrow> tmean [Fin 4] = Fin 4 \<longrightarrow> s = [1] \<or> s = [1, 1] \<longrightarrow>
            batch_loss tsum tmean [Fin 0, Fin 0] [full s (Fin 5)] [full s (Fin 3)] st =
              Inr (Tensor (scalar_tensor (Fin 4))))"
  using batch_loss_value_same_shape [OF assms, of tsum tmean st] scenario_value [of tsum tmean s st]
  by blast

text \<open>
  The scenario, run through the general formula with the left-to-right reductions.
\<close>

theorem batch_loss_formula_witness:
  "batch_loss (seq_sum f32) (seq_mean f32) [Fin 0, Fin 0] [full [1, 1] (Fin 5)] [full [1, 1] (Fin 3)]
     \<lparr>v_i = 7, v_loss = PyInt 0\<rparr> = Inr (Tensor (scalar_tensor (Fin 4)))"
proof -
  have sh: "\<forall>i<length [full [1, 1] (Fin 3)].
              shape ([full [1, 1] (Fin 5)] ! i) = [1] @ [(\<lambda>i. 1) i] \<and>
              shape ([full [1, 1] (Fin 3)] ! i) = [1] @ [(\<lambda>i. 1) i]"
    by (simp add: full_def)
  have len: "0 < length [full [1, 1] (Fin 3)]"
    "length [full [1, 1] (Fin 5)] = length [full [1, 1] (Fin 3)]"
    "length [full [1, 1] (Fin 3)] \<le> length [Fin 0, Fin 0]"
    by simp_all
  have n: "f32 2 = Fin 2" "f32 4 = Fin 4" by (simp_all add: f32_numeral)
  from batch_loss_formula [OF len sh, where tsum = "seq_sum f32" and tmean = "seq_mean f32"
        and st = "\<lparr>v_i = 7, v_loss = PyInt 0\<rparr>", THEN conjunct1]
  show ?thesis
    by (simp add: full_def fl_sub_def fl_sq_def n seq_sum_def seq_mean_def)
qed

text \<open>
  C1 as stated, with the formula read in real numbers, fails: for one task, one example,
  \<^verbatim>\<open>log_var = [-100]\<close> and prediction equal to target, the formula is
  \<open>exp 100 * 0 + (- 100) = - 100\<close>, but in float32 \<open>exp 100\<close> overflows to \<open>inf\<close>, \<open>inf * 0\<close> is
  nan, and the block returns nan.
\<close>

theorem overflow_gives_nan:
  "batch_loss (seq_sum f32) (seq_mean f32) [Fin (- 100)] [full [1, 1] (Fin 3)] [full [1, 1] (Fin 3)]
     \<lparr>v_i = 0, v_loss = PyInt 0\<rparr> = Inr (Tensor (scalar_tensor NaN)) \<and>
   spec_combined_loss [- 100] [[[3]]] [[[3]]] = - 100"
proof -
  have sh: "\<forall>i<length [full [1, 1] (Fin 3)].
              shape ([full [1, 1] (Fin 3)] ! i) = [1] @ [(\<lambda>i. 1) i] \<and>
              shape ([full [1, 1] (Fin 3)] ! i) = [1] @ [(\<lambda>i. 1) i]"
    by (simp add: full_def)
  have e: "f32 (exp 100) = PInf" by (rule f32_exp_overflow) simp
  have "batch_loss (seq_sum f32) (seq_mean f32) [Fin (- 100)] [full [1, 1] (Fin 3)] [full [1, 1] (Fin 3)]
     \<lparr>v_i = 0, v_loss = PyInt 0\<rparr> = Inr (Tensor (scalar_tensor NaN))"
    using batch_loss_value_same_shape [where y = "[full [1, 1] (Fin 3)]" and y_hat = "[full [1, 1] (Fin 3)]"
      and lvars = "[Fin (- 100)]" and bs = "[1]" and D = "\<lambda>i. 1" and tsum = "seq_sum f32"
      and tmean = "seq_mean f32" and st = "\<lparr>v_i = 0, v_loss = PyInt 0\<rparr>", OF _ _ _ sh]
    by (simp add: full_def fl_sub_def fl_sq_def e seq_sum_def seq_mean_def)
  moreover have "spec_combined_loss [- 100] [[[3]]] [[[3]]] = - 100"
    by (simp add: spec_combined_loss_def)
  ultimately show ?thesis by simp
qed

text \<open>
  C2, as the code has it. For every prediction tensor \<open>p\<close> of shape \<open>(20, 1)\<close> and target
  tensor \<open>t\<close> of shape \<open>(20, 2)\<close>, the subtraction \<^verbatim>\<open>y_hat[i] - y[i]\<close> raises nothing: it yields
  the tensor of shape \<open>(20, 2)\<close> whose entry \<open>[b, c]\<close> is \<open>p[b, 0] - t[b, c]\<close>. And for every
  input that consists of this one task, with a log-variance for it, the block raises
  nothing and returns the mean over the 20 examples of the sum over both columns of
  \<open>exp (- log_var\<^sub>0) * (p[b, 0] - t[b, c])\<^sup>2 + log_var\<^sub>0\<close>, in the float32 operations of the code.
\<close>

theorem mismatched_columns_are_broadcast:
  assumes "shape p = [20, 1]" "shape t = [20, 2]"
  shows "(\<exists>d. torch_sub p t = Inr d \<and> shape d = [20, 2] \<and>
              (\<forall>b<20. \<forall>c<2. elem d [b, c] = fl_sub f32 (elem p [b, 0]) (elem t [b, c]))) \<and>
         (lvars \<noteq> [] \<longrightarrow>
            batch_loss tsum tmean lvars [p] [t] st =
              Inr (Tensor (scalar_tensor (tmean (map (\<lambda>b.
                fl_add f32 (Fin 0)
                  (tsum (map (\<lambda>c.
                     fl_add f32
                       (fl_mul f32 (fl_exp f32 (fl_neg (lvars ! 0)))
                          (fl_sq f32 (fl_sub f32 (elem p [b, 0]) (elem t [b, c]))))
                       (lvars ! 0)) [0..<2]))) [0..<20])))))"
  using torch_sub_column [OF assms] batch_loss_column [OF _ assms, of lvars tsum tmean st]
  by blast

theorem mismatched_columns_are_broadcast_witness:
  "batch_loss (seq_sum f32) (seq_mean f32) [Fin 0] [full [20, 1] (Fin 3)] [full [20, 2] (Fin 1)]
     \<lparr>v_i = 0, v_loss = PyInt 0\<rparr> = Inr (Tensor (scalar_tensor (Fin 8)))"
proof -
  have n: "f32 2 = Fin 2" "f32 4 = Fin 4" "f32 8 = Fin 8" by (simp_all add: f32_numeral)
  have row: "seq_sum f32 [Fin 4, Fin 4] = Fin 8" by (simp add: seq_sum_def n)
  have m: "seq_mean f32 (replicate 20 (Fin 8)) = Fin 8"
    using seq_mean_replicate [of 20 8] by simp
  have sh: "shape (full [20, 1] (Fin 3)) = [20, 1]" "shape (full [20, 2] (Fin 1)) = [20, 2]"
    by (simp_all add: full_def)
  have two: "[0..<2] = [0, Suc 0]" by (simp add: upt_conv_Cons numeral_2_eq_2)
  from mismatched_columns_are_broadcast [OF sh, where lvars = "[Fin 0]" and tsum = "seq_sum f32"
      and tmean = "seq_mean f32" and st = "\<lparr>v_i = 0, v_loss = PyInt 0\<rparr>", THEN conjunct2]
  show ?thesis
    by (simp add: full_def fl_sub_def fl_sq_def n two row map_replicate_const m)
qed

text \<open>
  C2 as stated fails: a prediction of shape \<open>(20, 1)\<close>, all ones, against a target of shape
  \<open>(20, 2)\<close>, all zeros, with log-variance 0, is not rejected. Every example contributes
  \<open>(1 - 0)\<^sup>2 + (1 - 0)\<^sup>2 = 2\<close> and the block returns the loss 2.
\<close>

theorem shape_20_1_against_20_2_computes:
  "batch_loss (seq_sum f32) (seq_mean f32) [Fin 0] [full [20, 1] (Fin 1)] [full [20, 2] (Fin 0)]
     \<lparr>v_i = 0, v_loss = PyInt 0\<rparr> = Inr (Tensor (scalar_tensor (Fin 2)))"
proof -
  have n: "f32 2 = Fin 2" by (simp add: f32_numeral)
  have row: "seq_sum f32 [Fin 1, Fin 1] = Fin 2" by (simp add: seq_sum_def n)
  have m: "seq_mean f32 (replicate 20 (Fin 2)) = Fin 2"
    using seq_mean_replicate [of 20 2] by simp
  have sh: "shape (full [20, 1] (Fin 1)) = [20, 1]" "shape (full [20, 2] (Fin 0)) = [20, 2]"
    by (simp_all add: full_def)
  have two: "[0..<2] = [0, Suc 0]" by (simp add: upt_conv_Cons numeral_2_eq_2)
  from batch_loss_column [OF _ sh, where lvars = "[Fin 0]" and tsum = "seq_sum f32"
      and tmean = "seq_mean f32" and st = "\<lparr>v_i = 0, v_loss = PyInt 0\<rparr>"]
  show ?thesis
    by (simp add: full_def fl_sub_def fl_sq_def n two row map_replicate_const m)
qed

text \<open>
  C8. The block's outcome (an error, or the final values of \<^verbatim>\<open>i\<close> and \<^verbatim>\<open>loss\<close>) is the same for
  any two values \<open>e1\<close> and \<open>e2\<close> that the epoch loop has left in \<^verbatim>\<open>i\<close>, everything else being
  equal: the inner loop assigns \<^verbatim>\<open>i\<close> before it is read, and with no task at all \<^verbatim>\<open>i\<close> is not
  read.
\<close>

theorem batch_loss_ignores_epoch_index:
  "batch_loss_stmts tsum tmean lvars y_hat y (st\<lparr>v_i := e1\<rparr>) =
   batch_loss_stmts tsum tmean lvars y_hat y (st\<lparr>v_i := e2\<rparr>)"
proof (cases "length y")
  case 0
  then show ?thesis by (simp add: batch_loss_stmts_def)
next
  case (Suc n)
  then have "[0..<length y] = 0 # [1..<length y]"
    by (simp add: upt_conv_Cons)
  then show ?thesis by (simp add: batch_loss_stmts_def)
qed

section \<open>Properties of the data generator\<close>

lemma bentry_in_range:
  "r < nrows m \<Longrightarrow> c < ncols m \<Longrightarrow> bentry m r c = entry m r c"
  by (auto simp: bentry_def)

lemma broadcast_op_same_shape:
  assumes "nrows a = nrows b" "ncols a = ncols b"
  shows "broadcast_op f a b =
           Some \<lparr>ncols = ncols b,
                 rows = map (\<lambda>r. map (\<lambda>c. f (entry a r c) (entry b r c)) [0..<ncols b]) [0..<nrows b]\<rparr>"
  using assms by (simp add: broadcast_op_def broadcast_dim_def bentry_in_range)

lemma nrows_map_matrix [simp]: "nrows (map_matrix f m) = nrows m"
  by (simp add: nrows_def map_matrix_def)

lemma ncols_map_matrix [simp]: "ncols (map_matrix f m) = ncols m"
  by (simp add: map_matrix_def)

lemma wf_map_matrix: "wf_matrix m \<Longrightarrow> wf_matrix (map_matrix f m)"
  by (simp add: wf_matrix_def map_matrix_def list_all_iff)

lemma entry_map_matrix:
  assumes "wf_matrix m" "r < nrows m" "c < ncols m"
  shows "entry (map_matrix f m) r c = f (entry m r c)"
proof -
  have "length (rows m ! r) = ncols m"
    using assms(1,2) by (simp add: wf_matrix_def nrows_def list_all_length)
  with assms show ?thesis
    by (simp add: entry_def map_matrix_def nrows_def)
qed

lemma affine_noise:
  assumes "wf_matrix X" "nrows X = N" "ncols X = 1"
    and "wf_matrix noise" "nrows noise = N" "ncols noise = 1"
  shows "np_add (map_matrix (\<lambda>x. fl_add f64 x b) (map_matrix (\<lambda>x. fl_mul f64 x c) X))
                (map_matrix (\<lambda>x. fl_mul f64 sigma x) noise) =
           Inr \<lparr>ncols = 1,
                rows = map (\<lambda>r. [fl_add f64 (fl_add f64 (fl_mul f64 (entry X r 0) c) b)
                                     (fl_mul f64 sigma (entry noise r 0))]) [0..<N]\<rparr>"
  using assms
  by (simp add: np_add_def broadcast_op_same_shape entry_map_matrix wf_map_matrix)

text \<open>
  What \<^verbatim>\<open>gen_data\<close> computes from the generator, when \<^verbatim>\<open>np.random.randn(n, k)\<close> returns a
  well-formed array of shape \<open>(n, k)\<close>: three successive draws \<open>X\<close>, \<open>noise1\<close>, \<open>noise2\<close>, each
  from the state the draw before it left, and the arrays \<open>X\<close>,
  \<open>(X * 2 + 8) + 10 * noise1\<close> and \<open>(X * 3 + 3) + 1 * noise2\<close> in float64 arithmetic. Nothing
  of the state but numpy's generator is read or changed.
\<close>

lemma gen_data_draws:
  assumes "\<And>g n k. wf_matrix (fst (randn g n k)) \<and> nrows (fst (randn g n k)) = n \<and>
                     ncols (fst (randn g n k)) = k"
  shows "gen_data randn N w =
           (case randn (np_state w) N input_size of (X, g1) \<Rightarrow>
            case randn g1 N output1_size of (noise1, g2) \<Rightarrow>
            case randn g2 N output2_size of (noise2, g3) \<Rightarrow>
              (Inr (X,
                    \<lparr>ncols = output1_size,
                     rows = map (\<lambda>r. [fl_add f64 (fl_add f64 (fl_mul f64 (entry X r 0) (Fin 2)) (Fin 8))
                                          (fl_mul f64 (Fin 10) (entry noise1 r 0))]) [0..<N]\<rparr>,
                    \<lparr>ncols = output2_size,
                     rows = map (\<lambda>r. [fl_add f64 (fl_add f64 (fl_mul f64 (entry X r 0) (Fin 3)) (Fin 3))
                                          (fl_mul f64 (Fin 1) (entry noise2 r 0))]) [0..<N]\<rparr>),
               w\<lparr>np_state := g3\<rparr>))"
proof -
  obtain X g1 where r1: "randn (np_state w) N input_size = (X, g1)"
    by (cases "randn (np_state w) N input_size")
  obtain noise1 g2 where r2: "randn g1 N output1_size = (noise1, g2)"
    by (cases "randn g1 N output1_size")
  obtain noise2 g3 where r3: "randn g2 N output2_size = (noise2, g3)"
    by (cases "randn g2 N output2_size")
  have X: "wf_matrix X" "nrows X = N" "ncols X = 1"
    using assms [of "np_state w" N input_size] r1 by (simp_all add: input_size_def)
  have n1: "wf_matrix noise1" "nrows noise1 = N" "ncols noise1 = 1"
    using assms [of g1 N output1_size] r2 by (simp_all add: output1_size_def)
  have n2: "wf_matrix noise2" "nrows noise2 = N" "ncols noise2 = 1"
    using assms [of g2 N output2_size] r3 by (simp_all add: output2_size_def)
  show ?thesis
    by (simp add: gen_data_def np_random_randn_def r1 r2 r3 affine_noise [OF X n1] affine_noise [OF X n2]
          del: One_nat_def)
     (simp add: output1_size_def output2_size_def)
qed

text \<open>
  C7. Let \<^verbatim>\<open>np.random.randn(n, k)\<close> return a well-formed array of shape \<open>(n, k)\<close>. Two runs that
  seed numpy's generator with the same seed and then call \<^verbatim>\<open>gen_data\<close> with the same \<open>N\<close>
  return the same arrays, whatever the two states \<open>w\<close> and \<open>w'\<close> were before the seeding,
  the state of numpy's generator and of every other source of randomness included. The
  arrays are the ones drawn from the state the seed determines; a seed that numpy rejects
  gives ValueError in both runs.
\<close>

theorem seeded_gen_data_deterministic:
  fixes w w' :: "('g, 'h) world"
  assumes "\<And>g n k. wf_matrix (fst (randn g n k)) \<and> nrows (fst (randn g n k)) = n \<and>
                     ncols (fst (randn g n k)) = k"
  shows "seeded_gen_data initial randn seed N w = seeded_gen_data initial randn seed N w' \<and>
         seeded_gen_data initial randn seed N w =
           (if seed < 2 ^ 32
            then (case randn (initial seed) N input_size of (X, g1) \<Rightarrow>
                  case randn g1 N output1_size of (noise1, g2) \<Rightarrow>
                  case randn g2 N output2_size of (noise2, g3) \<Rightarrow>
                    Inr (Inr (X,
                      \<lparr>ncols = output1_size,
                       rows = map (\<lambda>r. [fl_add f64 (fl_add f64 (fl_mul f64 (entry X r 0) (Fin 2)) (Fin 8))
                                            (fl_mul f64 (Fin 10) (entry noise1 r 0))]) [0..<N]\<rparr>,
                      \<lparr>ncols = output2_size,
                       rows = map (\<lambda>r. [fl_add f64 (fl_add f64 (fl_mul f64 (entry X r 0) (Fin 3)) (Fin 3))
                                            (fl_mul f64 (Fin 1) (entry noise2 r 0))]) [0..<N]\<rparr>)))
            else Inl ValueError)"
proof -
  have run: "seeded_gen_data initial randn seed N v =
           (if seed < 2 ^ 32
            then (case randn (initial seed) N input_size of (X, g1) \<Rightarrow>
                  case randn g1 N output1_size of (noise1, g2) \<Rightarrow>
                  case randn g2 N output2_size of (noise2, g3) \<Rightarrow>
                    Inr (Inr (X,
                      \<lparr>ncols = output1_size,
                       rows = map (\<lambda>r. [fl_add f64 (fl_add f64 (fl_mul f64 (entry X r 0) (Fin 2)) (Fin 8))
                                            (fl_mul f64 (Fin 10) (entry noise1 r 0))]) [0..<N]\<rparr>,
                      \<lparr>ncols = output2_size,
                       rows = map (\<lambda>r. [fl_add f64 (fl_add f64 (fl_mul f64 (entry X r 0) (Fin 3)) (Fin 3))
                                            (fl_mul f64 (Fin 1) (entry noise2 r 0))]) [0..<N]\<rparr>)))
            else Inl ValueError)" for v :: "('g, 'h) world"
    by (simp add: seeded_gen_data_def np_random_seed_def gen_data_draws [OF assms] split: prod.splits)
  show ?thesis
    using run [of w] run [of w'] by simp
qed

theorem seeded_gen_data_deterministic_witness:
  "seeded_gen_data (\<lambda>n. n) stub_randn 1 2 \<lparr>np_state = 5, other_state = False\<rparr> =
     Inr (Inr (\<lparr>ncols = 1, rows = [[Fin 1], [Fin 1]]\<rparr>,
               \<lparr>ncols = 1, rows = [[Fin 30], [Fin 30]]\<rparr>,
               \<lparr>ncols = 1, rows = [[Fin 9], [Fin 9]]\<rparr>)) \<and>
   seeded_gen_data (\<lambda>n. n) stub_randn 1 2 \<lparr>np_state = 5, other_state = False\<rparr> =
   seeded_gen_data (\<lambda>n. n) stub_randn 1 2 \<lparr>np_state = 9, other_state = True\<rparr>"
proof -
  have c: "wf_matrix (fst (stub_randn g n k)) \<and> nrows (fst (stub_randn g n k)) = n \<and>
           ncols (fst (stub_randn g n k)) = k" for g n k
    by (simp add: stub_randn_def wf_matrix_def nrows_def list_all_iff)
  have u: "[0..<2] = [0, Suc 0]"
    by (simp add: upt_conv_Cons numeral_2_eq_2)
  have n: "f64 2 = Fin 2" "f64 3 = Fin 3" "f64 6 = Fin 6" "f64 9 = Fin 9" "f64 10 = Fin 10"
    "f64 20 = Fin 20" "f64 30 = Fin 30"
    by (simp_all add: f64_numeral)
  have r2: "replicate 2 x = [x, x]" for x :: "'a"
    by (simp add: numeral_2_eq_2)
  note t = seeded_gen_data_deterministic [of stub_randn "\<lambda>n. n" 1 2
      "\<lparr>np_state = 5, other_state = False\<rparr>" "\<lparr>np_state = 9, other_state = True\<rparr>", OF c]
  have "seeded_gen_data (\<lambda>n. n) stub_randn 1 2 \<lparr>np_state = 5, other_state = False\<rparr> =
     Inr (Inr (\<lparr>ncols = 1, rows = [[Fin 1], [Fin 1]]\<rparr>,
               \<lparr>ncols = 1, rows = [[Fin 30], [Fin 30]]\<rparr>,
               \<lparr>ncols = 1, rows = [[Fin 9], [Fin 9]]\<rparr>))"
    unfolding t [THEN conjunct2]
    by (simp add: stub_randn_def input_size_def output1_size_def output2_size_def entry_def u n r2)
  with t [THEN conjunct1] show ?thesis by simp
qed

lemma take_rows_in_range:
  assumes "set s \<subseteq> {..<nrows X}"
  shows "take_rows X s = Inr \<lparr>ncols = ncols X, rows = map (\<lambda>k. rows X ! k) s\<rparr>"
  using assms by (auto simp: take_rows_def list_all_iff)

text \<open>
  C5. Let \<^verbatim>\<open>np.random.shuffle\<close> permute the array it is given, and let \<open>X\<close>, \<open>Y1\<close>, \<open>Y2\<close> have
  the same number of rows. Then \<^verbatim>\<open>shuffle_data\<close> raises nothing, and there is one permutation
  \<open>s\<close> of the row indices with \<open>X' = X[s]\<close>, \<open>Y1' = Y1[s]\<close> and \<open>Y2' = Y2[s]\<close>: row \<open>k\<close> of the
  three results is row \<open>s ! k\<close> of the three inputs.
\<close>

theorem shuffle_data_shared_permutation:
  assumes "\<And>g xs. mset (fst (np_shuffle g xs)) = mset xs"
    and "nrows Y1 = nrows X" "nrows Y2 = nrows X"
  shows "\<exists>s w1 X' Y1' Y2'.
           shuffle_data np_shuffle X Y1 Y2 w0 = (Inr (X', Y1', Y2'), w1) \<and>
           mset s = mset [0..<nrows X] \<and>
           X' = \<lparr>ncols = ncols X, rows = map (\<lambda>k. rows X ! k) s\<rparr> \<and>
           Y1' = \<lparr>ncols = ncols Y1, rows = map (\<lambda>k. rows Y1 ! k) s\<rparr> \<and>
           Y2' = \<lparr>ncols = ncols Y2, rows = map (\<lambda>k. rows Y2 ! k) s\<rparr> \<and>
           (\<forall>k<nrows X. s ! k < nrows X \<and>
              rows X' ! k = rows X ! (s ! k) \<and>
              rows Y1' ! k = rows Y1 ! (s ! k) \<and>
              rows Y2' ! k = rows Y2 ! (s ! k))"
proof -
  obtain s g1 where sh: "np_shuffle (np_state w0) [0..<nrows X] = (s, g1)"
    by (cases "np_shuffle (np_state w0) [0..<nrows X]")
  have perm: "mset s = mset [0..<nrows X]"
    using assms(1) [of "np_state w0" "[0..<nrows X]"] sh by simp
  then have set_s: "set s = {..<nrows X}"
    by (metis mset_eq_setD atLeast_upt)
  have len: "length s = nrows X"
    using perm by (metis size_mset length_upt diff_zero)
  have rng: "set s \<subseteq> {..<nrows X}" "set s \<subseteq> {..<nrows Y1}" "set s \<subseteq> {..<nrows Y2}"
    using set_s assms(2,3) by simp_all
  have run: "shuffle_data np_shuffle X Y1 Y2 w0 =
               (Inr (\<lparr>ncols = ncols X, rows = map (\<lambda>k. rows X ! k) s\<rparr>,
                     \<lparr>ncols = ncols Y1, rows = map (\<lambda>k. rows Y1 ! k) s\<rparr>,
                     \<lparr>ncols = ncols Y2, rows = map (\<lambda>k. rows Y2 ! k) s\<rparr>), w0\<lparr>np_state := g1\<rparr>)"
    by (simp add: shuffle_data_def sh take_rows_in_range [OF rng(1)] take_rows_in_range [OF rng(2)]
        take_rows_in_range [OF rng(3)])
  have idx: "s ! k < nrows X" if "k < nrows X" for k
    using that set_s len by (metis lessThan_iff nth_mem)
  show ?thesis
    using run perm len idx by (intro exI [of _ s] exI [of _ "w0\<lparr>np_state := g1\<rparr>"]) simp
qed

theorem shuffle_data_shared_permutation_witness:
  "shuffle_data stub_shuffle \<lparr>ncols = 1, rows = [[Fin 1], [Fin 2], [Fin 3]]\<rparr>
     \<lparr>ncols = 1, rows = [[Fin 10], [Fin 20], [Fin 30]]\<rparr>
     \<lparr>ncols = 1, rows = [[Fin 100], [Fin 200], [Fin 300]]\<rparr> \<lparr>np_state = 1, other_state = ()\<rparr> =
   (Inr (\<lparr>ncols = 1, rows = [[Fin 3], [Fin 2], [Fin 1]]\<rparr>,
         \<lparr>ncols = 1, rows = [[Fin 30], [Fin 20], [Fin 10]]\<rparr>,
         \<lparr>ncols = 1, rows = [[Fin 300], [Fin 200], [Fin 100]]\<rparr>), \<lparr>np_state = 2, other_state = ()\<rparr>)"
proof -
  have c: "mset (fst (stub_shuffle g xs)) = mset xs" for g xs
    by (simp add: stub_shuffle_def)
  have u: "[0..<3] = [0, 1, 2]"
    by (simp add: upt_conv_Cons numeral_3_eq_3)
  from shuffle_data_shared_permutation [where np_shuffle = stub_shuffle
      and X = "\<lparr>ncols = 1, rows = [[Fin 1], [Fin 2], [Fin 3]]\<rparr>"
      and ?Y1.0 = "\<lparr>ncols = 1, rows = [[Fin 10], [Fin 20], [Fin 30]]\<rparr>"
      and ?Y2.0 = "\<lparr>ncols = 1, rows = [[Fin 100], [Fin 200], [Fin 300]]\<rparr>"
      and ?w0.0 = "\<lparr>np_state = 1, other_state = ()\<rparr>", OF c]
  show ?thesis
    by (simp add: shuffle_data_def stub_shuffle_def take_rows_def nrows_def u)
qed

end
